theory Spec2Isabelle
  imports Main
begin

text \<open>
  A model of \<open>server.js\<close>: the language detector \<open>detectLangFromText\<close> and the handler
  of \<open>POST /ask\<close>, with as much of the JavaScript runtime as the two use (strings of
  UTF-16 code units, \<open>trim\<close>, \<open>toLowerCase\<close>, regular expressions with the \<open>i\<close> flag,
  truthiness and optional chaining on JSON values).
\<close>

section \<open>Strings of the JavaScript runtime\<close>

text \<open>
  A JavaScript string is a sequence of UTF-16 code units, and \<open>length\<close>, indexing and the
  regular expressions of the program (none has the \<open>u\<close> flag) all count code units. A code
  unit is modelled by its number; the program does no arithmetic on it. String literals
  of the source that are plain ASCII are written with \<open>lit\<close>, every other character by its
  code unit.
\<close>

type_synonym code_unit = nat
type_synonym jsstring = "code_unit list"

definition lit :: "string \<Rightarrow> jsstring" where
  "lit s = map of_char s"

text \<open>
  \<open>String.prototype.trim\<close> removes the code units of WhiteSpace and LineTerminator from
  both ends: TAB, LF, VT, FF, CR, SPACE, NBSP, U+1680, U+2000 to U+200A, U+2028, U+2029,
  U+202F, U+205F, U+3000 and U+FEFF.
\<close>

definition isWhiteSpace :: "code_unit \<Rightarrow> bool" where
  "isWhiteSpace c \<longleftrightarrow>
     (0x09 \<le> c \<and> c \<le> 0x0D) \<or> c = 0x20 \<or> c = 0xA0 \<or> c = 0x1680 \<or>
     (0x2000 \<le> c \<and> c \<le> 0x200A) \<or> c = 0x2028 \<or> c = 0x2029 \<or> c = 0x202F \<or>
     c = 0x205F \<or> c = 0x3000 \<or> c = 0xFEFF"

definition trim :: "jsstring \<Rightarrow> jsstring" where
  "trim s = rev (dropWhile isWhiteSpace (rev (dropWhile isWhiteSpace s)))"

subsection \<open>Case mapping\<close>

text \<open>
  The case mappings of the Unicode Character Database (version 14) above U+00FF, for the
  code units of the Basic Multilingual Plane whose mapping is a single code unit. An entry
  \<open>(lo, hi, step, target)\<close> maps \<open>lo, lo + step, ..., hi\<close> to \<open>target, target + step, ...\<close>.
\<close>

type_synonym case_range = "nat \<times> nat \<times> nat \<times> nat"

fun range_lookup :: "case_range list \<Rightarrow> code_unit \<Rightarrow> code_unit option" where
  "range_lookup [] c = None"
| "range_lookup ((lo, hi, step, target) # rs) c =
     (if lo \<le> c \<and> c \<le> hi \<and> (c - lo) mod step = 0 then Some (target + (c - lo))
      else range_lookup rs c)"

definition lower_ranges :: "case_range list" where
  "lower_ranges = [
    (0x0100, 0x012E, 2, 0x0101), (0x0132, 0x0136, 2, 0x0133), (0x0139, 0x0147, 2, 0x013A),
    (0x014A, 0x0176, 2, 0x014B), (0x0178, 0x0178, 1, 0x00FF), (0x0179, 0x017D, 2, 0x017A),
    (0x0181, 0x0181, 1, 0x0253), (0x0182, 0x0184, 2, 0x0183), (0x0186, 0x0186, 1, 0x0254),
    (0x0187, 0x0187, 1, 0x0188), (0x0189, 0x018A, 1, 0x0256), (0x018B, 0x018B, 1, 0x018C),
    (0x018E, 0x018E, 1, 0x01DD), (0x018F, 0x018F, 1, 0x0259), (0x0190, 0x0190, 1, 0x025B),
    (0x0191, 0x0191, 1, 0x0192), (0x0193, 0x0193, 1, 0x0260), (0x0194, 0x0194, 1, 0x0263),
    (0x0196, 0x0196, 1, 0x0269), (0x0197, 0x0197, 1, 0x0268), (0x0198, 0x0198, 1, 0x0199),
    (0x019C, 0x019C, 1, 0x026F), (0x019D, 0x019D, 1, 0x0272), (0x019F, 0x019F, 1, 0x0275),
    (0x01A0, 0x01A4, 2, 0x01A1), (0x01A6, 0x01A6, 1, 0x0280), (0x01A7, 0x01A7, 1, 0x01A8),
    (0x01A9, 0x01A9, 1, 0x0283), (0x01AC, 0x01AC, 1, 0x01AD), (0x01AE, 0x01AE, 1, 0x0288),
    (0x01AF, 0x01AF, 1, 0x01B0), (0x01B1, 0x01B2, 1, 0x028A), (0x01B3, 0x01B5, 2, 0x01B4),
    (0x01B7, 0x01B7, 1, 0x0292), (0x01B8, 0x01B8, 1, 0x01B9), (0x01BC, 0x01BC, 1, 0x01BD),
    (0x01C4, 0x01C4, 1, 0x01C6), (0x01C5, 0x01C5, 1, 0x01C6), (0x01C7, 0x01C7, 1, 0x01C9),
    (0x01C8, 0x01C8, 1, 0x01C9), (0x01CA, 0x01CA, 1, 0x01CC), (0x01CB, 0x01DB, 2, 0x01CC),
    (0x01DE, 0x01EE, 2, 0x01DF), (0x01F1, 0x01F1, 1, 0x01F3), (0x01F2, 0x01F4, 2, 0x01F3),
    (0x01F6, 0x01F6, 1, 0x0195), (0x01F7, 0x01F7, 1, 0x01BF), (0x01F8, 0x021E, 2, 0x01F9),
    (0x0220, 0x0220, 1, 0x019E), (0x0222, 0x0232, 2, 0x0223), (0x023A, 0x023A, 1, 0x2C65),
    (0x023B, 0x023B, 1, 0x023C), (0x023D, 0x023D, 1, 0x019A), (0x023E, 0x023E, 1, 0x2C66),
    (0x0241, 0x0241, 1, 0x0242), (0x0243, 0x0243, 1, 0x0180), (0x0244, 0x0244, 1, 0x0289),
    (0x0245, 0x0245, 1, 0x028C), (0x0246, 0x024E, 2, 0x0247), (0x0370, 0x0372, 2, 0x0371),
    (0x0376, 0x0376, 1, 0x0377), (0x037F, 0x037F, 1, 0x03F3), (0x0386, 0x0386, 1, 0x03AC),
    (0x0388, 0x038A, 1, 0x03AD), (0x038C, 0x038C, 1, 0x03CC), (0x038E, 0x038F, 1, 0x03CD),
    (0x0391, 0x03A1, 1, 0x03B1), (0x03A3, 0x03AB, 1, 0x03C3), (0x03CF, 0x03CF, 1, 0x03D7),
    (0x03D8, 0x03EE, 2, 0x03D9), (0x03F4, 0x03F4, 1, 0x03B8), (0x03F7, 0x03F7, 1, 0x03F8),
    (0x03F9, 0x03F9, 1, 0x03F2), (0x03FA, 0x03FA, 1, 0x03FB), (0x03FD, 0x03FF, 1, 0x037B),
    (0x0400, 0x040F, 1, 0x0450), (0x0410, 0x042F, 1, 0x0430), (0x0460, 0x0480, 2, 0x0461),
    (0x048A, 0x04BE, 2, 0x048B), (0x04C0, 0x04C0, 1, 0x04CF), (0x04C1, 0x04CD, 2, 0x04C2),
    (0x04D0, 0x052E, 2, 0x04D1), (0x0531, 0x0556, 1, 0x0561), (0x10A0, 0x10C5, 1, 0x2D00),
    (0x10C7, 0x10C7, 1, 0x2D27), (0x10CD, 0x10CD, 1, 0x2D2D), (0x13A0, 0x13EF, 1, 0xAB70),
    (0x13F0, 0x13F5, 1, 0x13F8), (0x1C90, 0x1CBA, 1, 0x10D0), (0x1CBD, 0x1CBF, 1, 0x10FD),
    (0x1E00, 0x1E94, 2, 0x1E01), (0x1E9E, 0x1E9E, 1, 0x00DF), (0x1EA0, 0x1EFE, 2, 0x1EA1),
    (0x1F08, 0x1F0F, 1, 0x1F00), (0x1F18, 0x1F1D, 1, 0x1F10), (0x1F28, 0x1F2F, 1, 0x1F20),
    (0x1F38, 0x1F3F, 1, 0x1F30), (0x1F48, 0x1F4D, 1, 0x1F40), (0x1F59, 0x1F5F, 2, 0x1F51),
    (0x1F68, 0x1F6F, 1, 0x1F60), (0x1F88, 0x1F8F, 1, 0x1F80), (0x1F98, 0x1F9F, 1, 0x1F90),
    (0x1FA8, 0x1FAF, 1, 0x1FA0), (0x1FB8, 0x1FB9, 1, 0x1FB0), (0x1FBA, 0x1FBB, 1, 0x1F70),
    (0x1FBC, 0x1FBC, 1, 0x1FB3), (0x1FC8, 0x1FCB, 1, 0x1F72), (0x1FCC, 0x1FCC, 1, 0x1FC3),
    (0x1FD8, 0x1FD9, 1, 0x1FD0), (0x1FDA, 0x1FDB, 1, 0x1F76), (0x1FE8, 0x1FE9, 1, 0x1FE0),
    (0x1FEA, 0x1FEB, 1, 0x1F7A), (0x1FEC, 0x1FEC, 1, 0x1FE5), (0x1FF8, 0x1FF9, 1, 0x1F78),
    (0x1FFA, 0x1FFB, 1, 0x1F7C), (0x1FFC, 0x1FFC, 1, 0x1FF3), (0x2126, 0x2126, 1, 0x03C9),
    (0x212A, 0x212A, 1, 0x006B), (0x212B, 0x212B, 1, 0x00E5), (0x2132, 0x2132, 1, 0x214E),
    (0x2160, 0x216F, 1, 0x2170), (0x2183, 0x2183, 1, 0x2184), (0x24B6, 0x24CF, 1, 0x24D0),
    (0x2C00, 0x2C2F, 1, 0x2C30), (0x2C60, 0x2C60, 1, 0x2C61), (0x2C62, 0x2C62, 1, 0x026B),
    (0x2C63, 0x2C63, 1, 0x1D7D), (0x2C64, 0x2C64, 1, 0x027D), (0x2C67, 0x2C6B, 2, 0x2C68),
    (0x2C6D, 0x2C6D, 1, 0x0251), (0x2C6E, 0x2C6E, 1, 0x0271), (0x2C6F, 0x2C6F, 1, 0x0250),
    (0x2C70, 0x2C70, 1, 0x0252), (0x2C72, 0x2C72, 1, 0x2C73), (0x2C75, 0x2C75, 1, 0x2C76),
    (0x2C7E, 0x2C7F, 1, 0x023F), (0x2C80, 0x2CE2, 2, 0x2C81), (0x2CEB, 0x2CED, 2, 0x2CEC),
    (0x2CF2, 0x2CF2, 1, 0x2CF3), (0xA640, 0xA66C, 2, 0xA641), (0xA680, 0xA69A, 2, 0xA681),
    (0xA722, 0xA72E, 2, 0xA723), (0xA732, 0xA76E, 2, 0xA733), (0xA779, 0xA77B, 2, 0xA77A),
    (0xA77D, 0xA77D, 1, 0x1D79), (0xA77E, 0xA786, 2, 0xA77F), (0xA78B, 0xA78B, 1, 0xA78C),
    (0xA78D, 0xA78D, 1, 0x0265), (0xA790, 0xA792, 2, 0xA791), (0xA796, 0xA7A8, 2, 0xA797),
    (0xA7AA, 0xA7AA, 1, 0x0266), (0xA7AB, 0xA7AB, 1, 0x025C), (0xA7AC, 0xA7AC, 1, 0x0261),
    (0xA7AD, 0xA7AD, 1, 0x026C), (0xA7AE, 0xA7AE, 1, 0x026A), (0xA7B0, 0xA7B0, 1, 0x029E),
    (0xA7B1, 0xA7B1, 1, 0x0287), (0xA7B2, 0xA7B2, 1, 0x029D), (0xA7B3, 0xA7B3, 1, 0xAB53),
    (0xA7B4, 0xA7C2, 2, 0xA7B5), (0xA7C4, 0xA7C4, 1, 0xA794), (0xA7C5, 0xA7C5, 1, 0x0282),
    (0xA7C6, 0xA7C6, 1, 0x1D8E), (0xA7C7, 0xA7C9, 2, 0xA7C8), (0xA7D0, 0xA7D0, 1, 0xA7D1),
    (0xA7D6, 0xA7D8, 2, 0xA7D7), (0xA7F5, 0xA7F5, 1, 0xA7F6), (0xFF21, 0xFF3A, 1, 0xFF41)
  ]"

definition upper_ranges :: "case_range list" where
  "upper_ranges = [
    (0x0101, 0x012F, 2, 0x0100), (0x0131, 0x0131, 1, 0x0049), (0x0133, 0x0137, 2, 0x0132),
    (0x013A, 0x0148, 2, 0x0139), (0x014B, 0x0177, 2, 0x014A), (0x017A, 0x017E, 2, 0x0179),
    (0x017F, 0x017F, 1, 0x0053), (0x0180, 0x0180, 1, 0x0243), (0x0183, 0x0185, 2, 0x0182),
    (0x0188, 0x0188, 1, 0x0187), (0x018C, 0x018C, 1, 0x018B), (0x0192, 0x0192, 1, 0x0191),
    (0x0195, 0x0195, 1, 0x01F6), (0x0199, 0x0199, 1, 0x0198), (0x019A, 0x019A, 1, 0x023D),
    (0x019E, 0x019E, 1, 0x0220), (0x01A1, 0x01A5, 2, 0x01A0), (0x01A8, 0x01A8, 1, 0x01A7),
    (0x01AD, 0x01AD, 1, 0x01AC), (0x01B0, 0x01B0, 1, 0x01AF), (0x01B4, 0x01B6, 2, 0x01B3),
    (0x01B9, 0x01B9, 1, 0x01B8), (0x01BD, 0x01BD, 1, 0x01BC), (0x01BF, 0x01BF, 1, 0x01F7),
    (0x01C5, 0x01C5, 1, 0x01C4), (0x01C6, 0x01C6, 1, 0x01C4), (0x01C8, 0x01C8, 1, 0x01C7),
    (0x01C9, 0x01C9, 1, 0x01C7), (0x01CB, 0x01CB, 1, 0x01CA), (0x01CC, 0x01CC, 1, 0x01CA),
    (0x01CE, 0x01DC, 2, 0x01CD), (0x01DD, 0x01DD, 1, 0x018E), (0x01DF, 0x01EF, 2, 0x01DE),
    (0x01F2, 0x01F2, 1, 0x01F1), (0x01F3, 0x01F3, 1, 0x01F1), (0x01F5, 0x01F5, 1, 0x01F4),
    (0x01F9, 0x021F, 2, 0x01F8), (0x0223, 0x0233, 2, 0x0222), (0x023C, 0x023C, 1, 0x023B),
    (0x023F, 0x0240, 1, 0x2C7E), (0x0242, 0x0242, 1, 0x0241), (0x0247, 0x024F, 2, 0x0246),
    (0x0250, 0x0250, 1, 0x2C6F), (0x0251, 0x0251, 1, 0x2C6D), (0x0252, 0x0252, 1, 0x2C70),
    (0x0253, 0x0253, 1, 0x0181), (0x0254, 0x0254, 1, 0x0186), (0x0256, 0x0257, 1, 0x0189),
    (0x0259, 0x0259, 1, 0x018F), (0x025B, 0x025B, 1, 0x0190), (0x025C, 0x025C, 1, 0xA7AB),
    (0x0260, 0x0260, 1, 0x0193), (0x0261, 0x0261, 1, 0xA7AC), (0x0263, 0x0263, 1, 0x0194),
    (0x0265, 0x0265, 1, 0xA78D), (0x0266, 0x0266, 1, 0xA7AA), (0x0268, 0x0268, 1, 0x0197),
    (0x0269, 0x0269, 1, 0x0196), (0x026A, 0x026A, 1, 0xA7AE), (0x026B, 0x026B, 1, 0x2C62),
    (0x026C, 0x026C, 1, 0xA7AD), (0x026F, 0x026F, 1, 0x019C), (0x0271, 0x0271, 1, 0x2C6E),
    (0x0272, 0x0272, 1, 0x019D), (0x0275, 0x0275, 1, 0x019F), (0x027D, 0x027D, 1, 0x2C64),
    (0x0280, 0x0280, 1, 0x01A6), (0x0282, 0x0282, 1, 0xA7C5), (0x0283, 0x0283, 1, 0x01A9),
    (0x0287, 0x0287, 1, 0xA7B1), (0x0288, 0x0288, 1, 0x01AE), (0x0289, 0x0289, 1, 0x0244),
    (0x028A, 0x028B, 1, 0x01B1), (0x028C, 0x028C, 1, 0x0245), (0x0292, 0x0292, 1, 0x01B7),
    (0x029D, 0x029D, 1, 0xA7B2), (0x029E, 0x029E, 1, 0xA7B0), (0x0345, 0x0345, 1, 0x0399),
    (0x0371, 0x0373, 2, 0x0370), (0x0377, 0x0377, 1, 0x0376), (0x037B, 0x037D, 1, 0x03FD),
    (0x03AC, 0x03AC, 1, 0x0386), (0x03AD, 0x03AF, 1, 0x0388), (0x03B1, 0x03C1, 1, 0x0391),
    (0x03C2, 0x03C2, 1, 0x03A3), (0x03C3, 0x03CB, 1, 0x03A3), (0x03CC, 0x03CC, 1, 0x038C),
    (0x03CD, 0x03CE, 1, 0x038E), (0x03D0, 0x03D0, 1, 0x0392), (0x03D1, 0x03D1, 1, 0x0398),
    (0x03D5, 0x03D5, 1, 0x03A6), (0x03D6, 0x03D6, 1, 0x03A0), (0x03D7, 0x03D7, 1, 0x03CF),
    (0x03D9, 0x03EF, 2, 0x03D8), (0x03F0, 0x03F0, 1, 0x039A), (0x03F1, 0x03F1, 1, 0x03A1),
    (0x03F2, 0x03F2, 1, 0x03F9), (0x03F3, 0x03F3, 1, 0x037F), (0x03F5, 0x03F5, 1, 0x0395),
    (0x03F8, 0x03F8, 1, 0x03F7), (0x03FB, 0x03FB, 1, 0x03FA), (0x0430, 0x044F, 1, 0x0410),
    (0x0450, 0x045F, 1, 0x0400), (0x0461, 0x0481, 2, 0x0460), (0x048B, 0x04BF, 2, 0x048A),
    (0x04C2, 0x04CE, 2, 0x04C1), (0x04CF, 0x04CF, 1, 0x04C0), (0x04D1, 0x052F, 2, 0x04D0),
    (0x0561, 0x0586, 1, 0x0531), (0x10D0, 0x10FA, 1, 0x1C90), (0x10FD, 0x10FF, 1, 0x1CBD),
    (0x13F8, 0x13FD, 1, 0x13F0), (0x1C80, 0x1C80, 1, 0x0412), (0x1C81, 0x1C81, 1, 0x0414),
    (0x1C82, 0x1C82, 1, 0x041E), (0x1C83, 0x1C84, 1, 0x0421), (0x1C85, 0x1C85, 1, 0x0422),
    (0x1C86, 0x1C86, 1, 0x042A), (0x1C87, 0x1C87, 1, 0x0462), (0x1C88, 0x1C88, 1, 0xA64A),
    (0x1D79, 0x1D79, 1, 0xA77D), (0x1D7D, 0x1D7D, 1, 0x2C63), (0x1D8E, 0x1D8E, 1, 0xA7C6),
    (0x1E01, 0x1E95, 2, 0x1E00), (0x1E9B, 0x1E9B, 1, 0x1E60), (0x1EA1, 0x1EFF, 2, 0x1EA0),
    (0x1F00, 0x1F07, 1, 0x1F08), (0x1F10, 0x1F15, 1, 0x1F18), (0x1F20, 0x1F27, 1, 0x1F28),
    (0x1F30, 0x1F37, 1, 0x1F38), (0x1F40, 0x1F45, 1, 0x1F48), (0x1F51, 0x1F57, 2, 0x1F59),
    (0x1F60, 0x1F67, 1, 0x1F68), (0x1F70, 0x1F71, 1, 0x1FBA), (0x1F72, 0x1F75, 1, 0x1FC8),
    (0x1F76, 0x1F77, 1, 0x1FDA), (0x1F78, 0x1F79, 1, 0x1FF8), (0x1F7A, 0x1F7B, 1, 0x1FEA),
    (0x1F7C, 0x1F7D, 1, 0x1FFA), (0x1FB0, 0x1FB1, 1, 0x1FB8), (0x1FBE, 0x1FBE, 1, 0x0399),
    (0x1FD0, 0x1FD1, 1, 0x1FD8), (0x1FE0, 0x1FE1, 1, 0x1FE8), (0x1FE5, 0x1FE5, 1, 0x1FEC),
    (0x214E, 0x214E, 1, 0x2132), (0x2170, 0x217F, 1, 0x2160), (0x2184, 0x2184, 1, 0x2183),
    (0x24D0, 0x24E9, 1, 0x24B6), (0x2C30, 0x2C5F, 1, 0x2C00), (0x2C61, 0x2C61, 1, 0x2C60),
    (0x2C65, 0x2C65, 1, 0x023A), (0x2C66, 0x2C66, 1, 0x023E), (0x2C68, 0x2C6C, 2, 0x2C67),
    (0x2C73, 0x2C73, 1, 0x2C72), (0x2C76, 0x2C76, 1, 0x2C75), (0x2C81, 0x2CE3, 2, 0x2C80),
    (0x2CEC, 0x2CEE, 2, 0x2CEB), (0x2CF3, 0x2CF3, 1, 0x2CF2), (0x2D00, 0x2D25, 1, 0x10A0),
    (0x2D27, 0x2D27, 1, 0x10C7), (0x2D2D, 0x2D2D, 1, 0x10CD), (0xA641, 0xA66D, 2, 0xA640),
    (0xA681, 0xA69B, 2, 0xA680), (0xA723, 0xA72F, 2, 0xA722), (0xA733, 0xA76F, 2, 0xA732),
    (0xA77A, 0xA77C, 2, 0xA779), (0xA77F, 0xA787, 2, 0xA77E), (0xA78C, 0xA78C, 1, 0xA78B),
    (0xA791, 0xA793, 2, 0xA790), (0xA794, 0xA794, 1, 0xA7C4), (0xA797, 0xA7A9, 2, 0xA796),
    (0xA7B5, 0xA7C3, 2, 0xA7B4), (0xA7C8, 0xA7CA, 2, 0xA7C7), (0xA7D1, 0xA7D1, 1, 0xA7D0),
    (0xA7D7, 0xA7D9, 2, 0xA7D6), (0xA7F6, 0xA7F6, 1, 0xA7F5), (0xAB53, 0xAB53, 1, 0xA7B3),
    (0xAB70, 0xABBF, 1, 0x13A0), (0xFF41, 0xFF5A, 1, 0xFF21)
  ]"

text \<open>
  \<open>String.prototype.toLowerCase\<close>, one code unit at a time. Basic Latin and Latin-1 are
  computed: A to Z and U+00C0 to U+00DE (without the multiplication sign U+00D7) move up
  by 32. U+0130 is the one code unit whose lower case has two code units. The mapping of
  the runtime differs from this one in two places, both above U+00FF and outside every
  character the detector looks for: a capital sigma U+03A3 at the end of a word becomes
  U+03C2 instead of U+03C3, and a pair of surrogates that encodes a cased letter of a
  supplementary plane becomes another pair of surrogates.
\<close>

definition toLowerCase_cu :: "code_unit \<Rightarrow> jsstring" where
  "toLowerCase_cu c =
     (if (0x41 \<le> c \<and> c \<le> 0x5A) \<or> (0xC0 \<le> c \<and> c \<le> 0xDE \<and> c \<noteq> 0xD7) then [c + 0x20]
      else if c < 0x100 then [c]
      else if c = 0x130 then [0x69, 0x307]
      else (case range_lookup lower_ranges c of Some l \<Rightarrow> [l] | None \<Rightarrow> [c]))"

definition toLowerCase :: "jsstring \<Rightarrow> jsstring" where
  "toLowerCase s = concat (map toLowerCase_cu s)"

text \<open>
  The upper case of a code unit when it is a single code unit (\<open>None\<close> when the code unit
  has no upper case of its own, or one of several code units, as U+00DF has).
\<close>

definition upper_single :: "code_unit \<Rightarrow> code_unit option" where
  "upper_single c =
     (if (0x61 \<le> c \<and> c \<le> 0x7A) \<or> (0xE0 \<le> c \<and> c \<le> 0xFE \<and> c \<noteq> 0xF7) then Some (c - 0x20)
      else if c = 0xB5 then Some 0x39C
      else if c = 0xFF then Some 0x178
      else if c < 0x100 then None
      else range_lookup upper_ranges c)"

text \<open>
  Canonicalize of the regular expression semantics, for a pattern with the \<open>i\<close> flag and
  without the \<open>u\<close> flag: the upper case of the code unit when that is a single code unit,
  unless it would turn a code unit from 128 on into one below 128.
\<close>

definition Canonicalize :: "code_unit \<Rightarrow> code_unit" where
  "Canonicalize ch =
     (case upper_single ch of
        None \<Rightarrow> ch
      | Some cu \<Rightarrow> if 128 \<le> ch \<and> cu < 128 then ch else cu)"

section \<open>Regular expressions\<close>

text \<open>
  The fragment of the regular expression language the program uses: a character, a
  character class, the assertion \<open>\b\<close>, concatenation and alternation (a capture group
  changes nothing for \<open>test\<close>).
\<close>

datatype regex =
    Eps
  | Chr code_unit
  | Cls "code_unit list"
  | WordB
  | Cat regex regex
  | Alt regex regex

text \<open>
  The matcher runs over a configuration: the code unit before the current position, if
  any, and the rest of the input. It returns the configurations after each way to match,
  in the order backtracking tries them.
\<close>

type_synonym config = "code_unit option \<times> jsstring"

definition same_char :: "bool \<Rightarrow> code_unit \<Rightarrow> code_unit \<Rightarrow> bool" where
  "same_char ignoreCase a b \<longleftrightarrow> (if ignoreCase then Canonicalize a = Canonicalize b else a = b)"

text \<open>The word characters of \<open>\b\<close>: \<open>[A-Za-z0-9_]\<close>.\<close>

definition isWordChar :: "code_unit \<Rightarrow> bool" where
  "isWordChar c \<longleftrightarrow>
     (0x41 \<le> c \<and> c \<le> 0x5A) \<or> (0x61 \<le> c \<and> c \<le> 0x7A) \<or> (0x30 \<le> c \<and> c \<le> 0x39) \<or> c = 0x5F"

definition word_before :: "config \<Rightarrow> bool" where
  "word_before cfg = (case fst cfg of None \<Rightarrow> False | Some c \<Rightarrow> isWordChar c)"

definition word_after :: "config \<Rightarrow> bool" where
  "word_after cfg = (case snd cfg of [] \<Rightarrow> False | c # _ \<Rightarrow> isWordChar c)"

fun rmatch :: "bool \<Rightarrow> regex \<Rightarrow> config \<Rightarrow> config list" where
  "rmatch ic Eps cfg = [cfg]"
| "rmatch ic (Chr c) (p, []) = []"
| "rmatch ic (Chr c) (p, x # xs) = (if same_char ic x c then [(Some x, xs)] else [])"
| "rmatch ic (Cls cs) (p, []) = []"
| "rmatch ic (Cls cs) (p, x # xs) = (if list_ex (same_char ic x) cs then [(Some x, xs)] else [])"
| "rmatch ic WordB cfg = (if word_before cfg \<noteq> word_after cfg then [cfg] else [])"
| "rmatch ic (Cat r1 r2) cfg = concat (map (rmatch ic r2) (rmatch ic r1 cfg))"
| "rmatch ic (Alt r1 r2) cfg = rmatch ic r1 cfg @ rmatch ic r2 cfg"

text \<open>
  \<open>RegExp.prototype.test\<close> of a pattern without the \<open>g\<close> and \<open>y\<close> flags: the match is
  tried at every position of the input, from the first to the end of the input.
\<close>

fun search :: "bool \<Rightarrow> regex \<Rightarrow> config \<Rightarrow> bool" where
  "search ic r (p, []) = (rmatch ic r (p, []) \<noteq> [])"
| "search ic r (p, x # xs) = (rmatch ic r (p, x # xs) \<noteq> [] \<or> search ic r (Some x, xs))"

definition test :: "bool \<Rightarrow> regex \<Rightarrow> jsstring \<Rightarrow> bool" where
  "test ic r s = search ic r (None, s)"

text \<open>A literal word of a pattern, and an alternation of several patterns.\<close>

fun chars :: "jsstring \<Rightarrow> regex" where
  "chars [] = Eps"
| "chars [c] = Chr c"
| "chars (c # cs) = Cat (Chr c) (chars cs)"

fun alternatives :: "regex list \<Rightarrow> regex" where
  "alternatives [] = Eps"
| "alternatives [r] = r"
| "alternatives (r # rs) = Alt r (alternatives rs)"

definition whole_word :: "jsstring list \<Rightarrow> regex" where
  "whole_word ws = Cat WordB (Cat (alternatives (map chars ws)) WordB)"

section \<open>The language detector\<close>

text \<open>
  \<open>detectLangFromText\<close> of \<open>server.js\<close>: four rules, each a character class tested on
  the trimmed text or a list of keywords tested as whole words on its lower case; the
  first rule that matches gives the label, and English is the label when none does. All
  eight patterns have the \<open>i\<close> flag. The parameter defaults to the empty string when the
  function is called without an argument; the handler always passes a string.
\<close>

definition pt_class :: "code_unit list" where
  "pt_class = [0xE3, 0xF5, 0xE1, 0xE9, 0xED, 0xF3, 0xFA, 0xE2, 0xEA, 0xF4, 0xE0, 0xE7]"

definition es_class :: "code_unit list" where
  "es_class = [0xF1, 0xE1, 0xE9, 0xED, 0xF3, 0xFA, 0xA1, 0xBF]"

definition it_class :: "code_unit list" where
  "it_class = [0xE0, 0xE8, 0xE9, 0xEC, 0xF2, 0xF3, 0xF9, 0xE7, 0xEE, 0xEF, 0xEB]"

definition fr_class :: "code_unit list" where
  "fr_class = [0xE0, 0xE2, 0xE7, 0xE9, 0xE8, 0xEA, 0xEE, 0xEF, 0xF4, 0xFB, 0xF9]"

definition pt_words :: "jsstring list" where
  "pt_words = [lit ''artigos'', lit ''quando'', lit ''como'', lit ''porque'', lit ''por que'']"

definition es_words :: "jsstring list" where
  "es_words = [lit ''art'' @ [0xED] @ lit ''culos'', lit ''cu'' @ [0xE1] @ lit ''ndo'',
               lit ''c'' @ [0xF3] @ lit ''mo'', lit ''por qu'' @ [0xE9]]"

definition it_words :: "jsstring list" where
  "it_words = [lit ''perch'' @ [0xE9], lit ''quando'', lit ''come'', lit ''articoli'']"

definition fr_words :: "jsstring list" where
  "fr_words = [lit ''pourquoi'', lit ''quand'', lit ''comment'', lit ''articles'']"

definition detectLangFromText :: "jsstring \<Rightarrow> jsstring" where
  "detectLangFromText text =
     (let t = trim text;
          low = toLowerCase t
      in if test True (Cls pt_class) t \<or> test True (whole_word pt_words) low then lit ''Portuguese''
         else if test True (Cls es_class) t \<or> test True (whole_word es_words) low then lit ''Spanish''
         else if test True (Cls it_class) t \<or> test True (whole_word it_words) low then lit ''Italian''
         else if test True (Cls fr_class) t \<or> test True (whole_word fr_words) low then lit ''French''
         else lit ''English'')"

text \<open>The five sample sentences of the specification.\<close>

definition sample_pt :: jsstring where
  "sample_pt = lit ''Por que os artigos s'' @ [0xE3] @ lit ''o importantes?''"

definition sample_es :: jsstring where
  "sample_es = [0xBF] @ lit ''Por qu'' @ [0xE9] @ lit '' uso art'' @ [0xED] @ lit ''culos?''"

definition sample_it :: jsstring where
  "sample_it = lit ''Perch'' @ [0xE9] @ lit '' uso gli articoli?''"

definition sample_fr :: jsstring where
  "sample_fr = lit ''Pourquoi utiliser des articles?''"

definition sample_en :: jsstring where
  "sample_en = lit ''Why do we use articles?''"

text \<open>A plain text: \<open>come\<close> and \<open>porque\<close> occur in it, but not as whole words.\<close>

definition plain_sample :: jsstring where
  "plain_sample = lit ''  The comet 42 PORQUES  ''"

section \<open>Values of the runtime\<close>

text \<open>
  A number is a double: not a number, an infinity with its sign, or \<open>m * 2 ^ e\<close> as
  \<open>Num m e\<close>. The program only asks whether a number is truthy and hands it on.
\<close>

datatype jsnum = NaN | Inf bool | Num int int

text \<open>
  The values the handler meets: the parsed JSON body of the request, the parsed response
  of the service and the properties of a thrown value. An object is the list of its own
  properties.
\<close>

datatype jsval =
    JUndefined
  | JNull
  | JBool bool
  | JNum jsnum
  | JStr jsstring
  | JArr "jsval list"
  | JObj "(jsstring \<times> jsval) list"

fun truthy :: "jsval \<Rightarrow> bool" where
  "truthy JUndefined = False"
| "truthy JNull = False"
| "truthy (JBool b) = b"
| "truthy (JNum NaN) = False"
| "truthy (JNum (Inf s)) = True"
| "truthy (JNum (Num m e)) = (m \<noteq> 0)"
| "truthy (JStr s) = (s \<noteq> [])"
| "truthy (JArr xs) = True"
| "truthy (JObj fs) = True"

definition nullish :: "jsval \<Rightarrow> bool" where
  "nullish v \<longleftrightarrow> v = JUndefined \<or> v = JNull"

text \<open>
  \<open>v.k\<close> for a value that is neither \<open>undefined\<close> nor \<open>null\<close> and a property name that no
  prototype of a string, an array, a number or a boolean defines. The names the program
  reads this way are \<open>message\<close>, \<open>choices\<close>, \<open>content\<close>, \<open>response\<close> and \<open>data\<close>.
\<close>

fun member_of :: "jsval \<Rightarrow> jsstring \<Rightarrow> jsval" where
  "member_of (JObj fs) k = (case map_of fs k of None \<Rightarrow> JUndefined | Some v \<Rightarrow> v)"
| "member_of v k = JUndefined"

text \<open>\<open>v?.k\<close>: \<open>undefined\<close> when \<open>v\<close> is \<open>undefined\<close> or \<open>null\<close>.\<close>

definition opt_member :: "jsval \<Rightarrow> jsstring \<Rightarrow> jsval" where
  "opt_member v k = (if nullish v then JUndefined else member_of v k)"

text \<open>\<open>v?.[0]\<close>: the first element of an array, the first code unit of a string.\<close>

fun opt_first :: "jsval \<Rightarrow> jsval" where
  "opt_first (JArr []) = JUndefined"
| "opt_first (JArr (x # xs)) = x"
| "opt_first (JStr []) = JUndefined"
| "opt_first (JStr (c # cs)) = JStr [c]"
| "opt_first (JObj fs) = member_of (JObj fs) (lit ''0'')"
| "opt_first v = JUndefined"

text \<open>
  A thrown value, by what the handler reads of it: \<open>err?.response\<close>, \<open>err?.message\<close> and
  \<open>String(err)\<close>.
\<close>

record thrown =
  thrown_response :: jsval
  thrown_message :: jsval
  thrown_string :: jsstring

text \<open>
  Two things are the engine's own and stay parameters: \<open>JSON.stringify\<close> (on the values
  above it never throws and, for a truthy value, returns a string) and the wording of the
  message of a TypeError, one for each place of the handler that can raise it.
\<close>

datatype type_error_site = UserTextTrim | ResponseChoices | AnswerTrim

record runtime =
  stringify :: "jsval \<Rightarrow> jsstring"
  type_error_message :: "type_error_site \<Rightarrow> jsstring"

definition TypeError :: "jsstring \<Rightarrow> thrown" where
  "TypeError msg =
     \<lparr>thrown_response = JUndefined,
      thrown_message = JStr msg,
      thrown_string = (if msg = [] then lit ''TypeError'' else lit ''TypeError: '' @ msg)\<rparr>"

section \<open>Configuration and prompt\<close>

text \<open>The two optional variables of the process environment that the handler depends on.\<close>

record env =
  TOPIC :: "jsstring option"
  OPENAI_MODEL :: "jsstring option"

text \<open>\<open>process.env.X || d\<close>: the default when the variable is unset or empty.\<close>

definition or_default :: "jsstring option \<Rightarrow> jsstring \<Rightarrow> jsstring" where
  "or_default v d = (case v of None \<Rightarrow> d | Some s \<Rightarrow> if s = [] then d else s)"

definition ALLOWED_POINT :: "env \<Rightarrow> jsstring" where
  "ALLOWED_POINT e = or_default (TOPIC e) (lit ''articles (a / an / the)'')"

definition MODEL :: "env \<Rightarrow> jsstring" where
  "MODEL e = or_default (OPENAI_MODEL e) (lit ''gpt-4o-mini'')"

definition SYSTEM_PROMPT :: "env \<Rightarrow> jsstring" where
  "SYSTEM_PROMPT e = concat [
     [0x0A],
     lit ''You are a multilingual English teacher.'', [0x0A],
     [0x0A],
     lit ''Current grammar focus: '', ALLOWED_POINT e, lit ''.'', [0x0A],
     [0x0A],
     lit ''Rules:'', [0x0A],
     lit ''1) Detect the student'', [0x27], lit ''s language from their message and ALWAYS reply in that same language'', [0x0A],
     lit ''   (Portuguese, Spanish, Italian, French, or English). This includes refusals.'', [0x0A],
     lit ''2) If the student'', [0x27], lit ''s question is NOT about '', ALLOWED_POINT e, lit '':'', [0x0A],
     lit ''   - Politely explain (in the student'', [0x27], lit ''s language) that this lesson focuses only on '', ALLOWED_POINT e, lit ''.'', [0x0A],
     lit ''   - Encourage staying on topic.'', [0x0A],
     lit ''   - Give 2 short example questions they could ask about '', ALLOWED_POINT e, lit '' (in the same language).'', [0x0A],
     lit ''3) If the student'', [0x27], lit ''s question IS about '', ALLOWED_POINT e, lit '':'', [0x0A],
     lit ''   - Explain the rule clearly in the student'', [0x27], lit ''s language (max 3 short lines).'', [0x0A],
     lit ''   - Give 2 short English examples.'', [0x0A],
     lit ''   - Provide 3 short fill-in-the-gap practice items.'', [0x0A],
     lit ''4) Keep answers short, friendly, and A2'', [0x2013], lit ''B1 clarity.'', [0x0A],
     lit ''5) Never switch languages unless the student switches first. Always mirror the student'', [0x27], lit ''s language.'', [0x0A]
   ]"

definition LANG_HINT :: "jsstring \<Rightarrow> jsstring" where
  "LANG_HINT detected = concat [
     lit ''Student language detected: '', detected,
     lit ''. You MUST reply ONLY in '', detected,
     lit '', including refusals and guidance. Never answer in any other language.''
   ]"

section \<open>The handler of POST /ask\<close>

record chat_message =
  role :: jsstring
  content :: jsstring

text \<open>The temperature 0.2 is the double \<open>3602879701896397 * 2 ^ -54\<close>.\<close>

record chat_request =
  model :: jsstring
  messages :: "chat_message list"
  max_tokens :: nat
  temperature :: jsnum

text \<open>
  The chat-completion service is a function of the request: the awaited call either
  throws (\<open>Inl\<close>) or returns the parsed response (\<open>Inr\<close>).
\<close>

type_synonym upstream = "chat_request \<Rightarrow> thrown + jsval"

text \<open>
  What one request does: the status and the JSON body of the response, the arguments of
  each call of \<open>console.error\<close>, and the requests sent to the service.
\<close>

record outcome =
  status :: nat
  body :: jsval
  logged :: "jsval list list"
  calls :: "chat_request list"

text \<open>
  The \<open>catch\<close> block:
  \<open>detail = err?.response?.data || err?.message || String(err)\<close>, logged and sent with
  status 500, as it is when it is a string and through \<open>JSON.stringify\<close> otherwise.
\<close>

definition error_detail :: "thrown \<Rightarrow> jsval" where
  "error_detail err =
     (let payload = opt_member (thrown_response err) (lit ''data'')
      in if truthy payload then payload
         else if truthy (thrown_message err) then thrown_message err
         else JStr (thrown_string err))"

definition catch_block :: "runtime \<Rightarrow> thrown \<Rightarrow> chat_request list \<Rightarrow> outcome" where
  "catch_block rt err sent =
     (let detail = error_detail err
      in \<lparr>status = 500,
          body = JObj [(lit ''error'',
                   JStr (case detail of JStr s \<Rightarrow> s | _ \<Rightarrow> stringify rt detail))],
          logged = [[JStr (lit ''LLM error:''), detail]],
          calls = sent\<rparr>)"

text \<open>
  \<open>chatResponse.choices?.[0]?.message?.content\<close>, for a response that is neither
  \<open>undefined\<close> nor \<open>null\<close>.
\<close>

definition first_content :: "jsval \<Rightarrow> jsval" where
  "first_content chatResponse =
     opt_member (opt_member (opt_first (member_of chatResponse (lit ''choices'')))
       (lit ''message'')) (lit ''content'')"

text \<open>The part of the handler after the awaited call has returned.\<close>

definition relay :: "runtime \<Rightarrow> chat_request \<Rightarrow> jsval \<Rightarrow> outcome" where
  "relay rt request chatResponse =
     (if nullish chatResponse
      then catch_block rt (TypeError (type_error_message rt ResponseChoices)) [request]
      else (case first_content chatResponse of
              JStr c \<Rightarrow>
                (let answer = trim c
                 in if answer = []
                    then \<lparr>status = 502,
                          body = JObj [(lit ''error'', JStr (lit ''No answer from model''))],
                          logged = [], calls = [request]\<rparr>
                    else \<lparr>status = 200, body = JObj [(lit ''answer'', JStr answer)],
                          logged = [], calls = [request]\<rparr>)
            | v \<Rightarrow>
                if nullish v
                then \<lparr>status = 502,
                      body = JObj [(lit ''error'', JStr (lit ''No answer from model''))],
                      logged = [], calls = [request]\<rparr>
                else catch_block rt (TypeError (type_error_message rt AnswerTrim)) [request]))"

text \<open>The argument of \<open>openai.chat.completions.create\<close>.\<close>

definition completion_request :: "env \<Rightarrow> jsstring \<Rightarrow> jsstring \<Rightarrow> chat_request" where
  "completion_request e detected userText =
     \<lparr>model = MODEL e,
      messages =
        [\<lparr>role = lit ''system'', content = LANG_HINT detected\<rparr>,
         \<lparr>role = lit ''system'', content = SYSTEM_PROMPT e\<rparr>,
         \<lparr>role = lit ''user'', content = userText\<rparr>],
      max_tokens = 700,
      temperature = Num 3602879701896397 (- 54)\<rparr>"

definition ask :: "runtime \<Rightarrow> env \<Rightarrow> upstream \<Rightarrow> jsval \<Rightarrow> outcome" where
  "ask rt e create req_body =
     (let m = opt_member req_body (lit ''message'')
      in case (if truthy m then m else JStr []) of
           JStr s \<Rightarrow>
             (let userText = trim s
              in if userText = []
                 then \<lparr>status = 400,
                       body = JObj [(lit ''error'', JStr (lit ''Empty message''))],
                       logged = [], calls = []\<rparr>
                 else
                   (let detected = detectLangFromText userText;
                        request = completion_request e detected userText
                    in case create request of
                         Inl err \<Rightarrow> catch_block rt err [request]
                       | Inr chatResponse \<Rightarrow> relay rt request chatResponse))
         | _ \<Rightarrow> catch_block rt (TypeError (type_error_message rt UserTextTrim)) [])"

text \<open>
  The request the handler sends for a message, and whether a string contains another
  (\<open>String.prototype.includes\<close>).
\<close>

definition request_for :: "env \<Rightarrow> jsstring \<Rightarrow> chat_request" where
  "request_for e s = completion_request e (detectLangFromText (trim s)) (trim s)"

fun has_substring :: "jsstring \<Rightarrow> jsstring \<Rightarrow> bool" where
  "has_substring [] sub = (sub = [])"
| "has_substring (x # xs) sub = (take (length sub) (x # xs) = sub \<or> has_substring xs sub)"

text \<open>Values to run the handler on.\<close>

definition sample_runtime :: runtime where
  "sample_runtime =
     \<lparr>stringify = (\<lambda>v. lit ''{}''), type_error_message = (\<lambda>site. lit ''not a function'')\<rparr>"

definition sample_env :: env where
  "sample_env = \<lparr>TOPIC = None, OPENAI_MODEL = None\<rparr>"

definition returning :: "jsval \<Rightarrow> upstream" where
  "returning chatResponse = (\<lambda>request. Inr chatResponse)"

definition throwing :: "thrown \<Rightarrow> upstream" where
  "throwing err = (\<lambda>request. Inl err)"

definition message_body :: "jsstring \<Rightarrow> jsval" where
  "message_body s = JObj [(lit ''message'', JStr s)]"

definition no_content_response :: jsval where
  "no_content_response =
     JObj [(lit ''choices'',
       JArr [JObj [(lit ''message'', JObj [(lit ''role'', JStr (lit ''assistant''))])]])]"

definition blank_content_response :: jsval where
  "blank_content_response =
     JObj [(lit ''choices'',
       JArr [JObj [(lit ''message'', JObj [(lit ''content'', JStr (lit ''  ''))])]])]"

definition no_message_response :: jsval where
  "no_message_response = JObj [(lit ''choices'', JArr [JObj [(lit ''index'', JNum (Num 0 0))]])]"

definition quota_error :: thrown where
  "quota_error =
     \<lparr>thrown_response = JObj [(lit ''data'', JStr (lit ''quota exceeded''))],
      thrown_message = JStr (lit ''Request failed with status code 429''),
      thrown_string = lit ''Error: Request failed with status code 429''\<rparr>"

definition network_error :: thrown where
  "network_error =
     \<lparr>thrown_response = JUndefined,
      thrown_message = JStr (lit ''Connection error.''),
      thrown_string = lit ''Error: Connection error.''\<rparr>"

definition bare_error :: thrown where
  "bare_error =
     \<lparr>thrown_response = JUndefined,
      thrown_message = JUndefined,
      thrown_string = lit ''timeout''\<rparr>"

section \<open>Auxiliary notions\<close>

text \<open>The code unit before the position reached after reading \<open>ys\<close>.\<close>

definition prev_of :: "code_unit option \<Rightarrow> jsstring \<Rightarrow> code_unit option" where
  "prev_of p ys = (if ys = [] then p else Some (last ys))"

text \<open>The vowels with an acute accent that the Spanish keywords contain, in both cases.\<close>

definition accented_vowel :: "code_unit \<Rightarrow> bool" where
  "accented_vowel c \<longleftrightarrow> c \<in> {0xE1, 0xC1, 0xE9, 0xC9, 0xED, 0xCD, 0xF3, 0xD3}"

text \<open>
  The vocabulary of the claim about plain texts. A text is plain when each of its code
  units is an ASCII letter, an ASCII digit or white space. A keyword occurs as a whole
  word at position \<open>i\<close> when the text reads the keyword there, in any letter case, with no
  ASCII letter or digit right before it and none right after it.
\<close>

definition isAsciiAlnum :: "code_unit \<Rightarrow> bool" where
  "isAsciiAlnum c \<longleftrightarrow>
     (0x30 \<le> c \<and> c \<le> 0x39) \<or> (0x41 \<le> c \<and> c \<le> 0x5A) \<or> (0x61 \<le> c \<and> c \<le> 0x7A)"

definition plain_text :: "jsstring \<Rightarrow> bool" where
  "plain_text s = list_all (\<lambda>c. isAsciiAlnum c \<or> isWhiteSpace c) s"

definition ascii_lower :: "code_unit \<Rightarrow> code_unit" where
  "ascii_lower c = (if 0x41 \<le> c \<and> c \<le> 0x5A then c + 0x20 else c)"

definition occurs_at :: "jsstring \<Rightarrow> jsstring \<Rightarrow> nat \<Rightarrow> bool" where
  "occurs_at w s i \<longleftrightarrow>
     map ascii_lower (take (length w) (drop i s)) = w \<and>
     \<not> (0 < i \<and> isAsciiAlnum (s ! (i - 1))) \<and>
     \<not> (i + length w < length s \<and> isAsciiAlnum (s ! (i + length w)))"

definition whole_word_in :: "jsstring \<Rightarrow> jsstring \<Rightarrow> bool" where
  "whole_word_in w s = list_ex (occurs_at w s) [0..<Suc (length s)]"

definition listed_keywords :: "jsstring list" where
  "listed_keywords = pt_words @ es_words @ it_words @ fr_words"

text \<open>
  What a plain code unit looks like after \<open>toLowerCase\<close>, and the code units the
  keywords are made of: small letters, the space, and four vowels with an acute accent.
\<close>

definition lowered :: "code_unit \<Rightarrow> bool" where
  "lowered y \<longleftrightarrow> (0x30 \<le> y \<and> y \<le> 0x39) \<or> (0x61 \<le> y \<and> y \<le> 0x7A) \<or> isWhiteSpace y"

definition kw_char :: "code_unit \<Rightarrow> bool" where
  "kw_char c \<longleftrightarrow>
     (0x61 \<le> c \<and> c \<le> 0x7A) \<or> c = 0x20 \<or> c = 0xE1 \<or> c = 0xE9 \<or> c = 0xED \<or> c = 0xF3"

section \<open>Properties of the string functions and of the matcher\<close>

subsection \<open>Case tables\<close>

lemma range_lookup_SomeD:
  "range_lookup rs c = Some u \<Longrightarrow>
     \<exists>lo hi st t. (lo, hi, st, t) \<in> set rs \<and> lo \<le> c \<and> c \<le> hi \<and> u = t + (c - lo)"
proof (induction rs c rule: range_lookup.induct)
  case (1 c)
  then show ?case by simp
next
  case (2 lo hi step target rs c)
  show ?case
  proof (cases "lo \<le> c \<and> c \<le> hi \<and> (c - lo) mod step = 0")
    case True
    with "2.prems" have "u = target + (c - lo)" by simp
    with True show ?thesis by (intro exI [of _ lo] exI [of _ hi] exI [of _ step] exI [of _ target]) simp
  next
    case False
    with "2.prems" have "range_lookup rs c = Some u" by simp
    with "2.IH" False obtain lo' hi' st' t'
      where "(lo', hi', st', t') \<in> set rs" "lo' \<le> c" "c \<le> hi'" "u = t' + (c - lo')"
      by blast
    then show ?thesis by (intro exI [of _ lo'] exI [of _ hi'] exI [of _ st'] exI [of _ t']) simp
  qed
qed

lemma upper_ranges_targets:
  "list_all (\<lambda>(lo, hi, st, t). 0x100 \<le> t \<or> t + (hi - lo) < 0x80) upper_ranges"
  by (simp add: upper_ranges_def)

lemma lower_ranges_targets:
  "list_all (\<lambda>(lo, hi, st, t). 0x100 \<le> t \<or> (lo = hi \<and> (t = 0xFF \<or> t = 0xDF \<or> t = 0x6B \<or> t = 0xE5))) lower_ranges"
  by (simp add: lower_ranges_def)

lemma upper_lookup_range:
  assumes "range_lookup upper_ranges c = Some u"
  shows "0x100 \<le> u \<or> u < 0x80"
proof -
  from range_lookup_SomeD [OF assms] obtain lo hi st t
    where m: "(lo, hi, st, t) \<in> set upper_ranges" and b: "lo \<le> c" "c \<le> hi" and u: "u = t + (c - lo)"
    by blast
  from upper_ranges_targets m have "0x100 \<le> t \<or> t + (hi - lo) < 0x80"
    by (auto simp: list_all_iff)
  with b u show ?thesis by auto
qed

lemma Canonicalize_high: "0x100 \<le> c \<Longrightarrow> 0x100 \<le> Canonicalize c"
  using upper_lookup_range [of c]
  by (auto simp: Canonicalize_def upper_single_def split: option.splits)

lemma Canonicalize_latin1:
  assumes "Canonicalize x = y" and "y < 0x100"
  shows "x < 0x100 \<and> (x = y \<or>
           (x = y + 0x20 \<and> ((0x41 \<le> y \<and> y \<le> 0x5A) \<or> (0xC0 \<le> y \<and> y \<le> 0xDE \<and> y \<noteq> 0xD7))))"
proof -
  have x: "x < 0x100" using assms Canonicalize_high [of x] by (cases "x < 0x100") auto
  with assms show ?thesis
    by (auto simp: Canonicalize_def upper_single_def split: if_splits)
qed

lemma lower_lookup_range:
  assumes "range_lookup lower_ranges c = Some u"
  shows "0x100 \<le> u \<or> u = 0xFF \<or> u = 0xDF \<or> u = 0x6B \<or> u = 0xE5"
proof -
  from range_lookup_SomeD [OF assms] obtain lo hi st t
    where m: "(lo, hi, st, t) \<in> set lower_ranges" and b: "lo \<le> c" "c \<le> hi" and u: "u = t + (c - lo)"
    by blast
  from lower_ranges_targets m
  have "0x100 \<le> t \<or> (lo = hi \<and> (t = 0xFF \<or> t = 0xDF \<or> t = 0x6B \<or> t = 0xE5))"
    by (auto simp: list_all_iff)
  with b u show ?thesis by auto
qed

subsection \<open>trim\<close>

lemma set_trim_subset: "set (trim s) \<subseteq> set s"
proof -
  have "set (trim s) \<subseteq> set (dropWhile isWhiteSpace s)"
    unfolding trim_def using set_dropWhileD [of _ isWhiteSpace "rev (dropWhile isWhiteSpace s)"]
    by auto
  also have "\<dots> \<subseteq> set s" using set_dropWhileD [of _ isWhiteSpace s] by auto
  finally show ?thesis .
qed

lemma in_dropWhile: "x \<in> set s \<Longrightarrow> \<not> P x \<Longrightarrow> x \<in> set (dropWhile P s)"
  by (induction s) auto

lemma in_trim: "x \<in> set s \<Longrightarrow> \<not> isWhiteSpace x \<Longrightarrow> x \<in> set (trim s)"
  unfolding trim_def by (simp add: in_dropWhile)

lemma trim_decompose:
  "\<exists>a b. s = a @ trim s @ b \<and> list_all isWhiteSpace a \<and> list_all isWhiteSpace b"
proof -
  let ?a = "takeWhile isWhiteSpace s"
  let ?m = "dropWhile isWhiteSpace s"
  let ?b = "rev (takeWhile isWhiteSpace (rev ?m))"
  have 1: "s = ?a @ ?m" by simp
  have "rev (takeWhile isWhiteSpace (rev ?m) @ dropWhile isWhiteSpace (rev ?m)) = rev (rev ?m)"
    by (simp only: takeWhile_dropWhile_id)
  then have "rev (dropWhile isWhiteSpace (rev ?m)) @ ?b = ?m"
    by (simp only: rev_append rev_rev_ident)
  then have 2: "?m = trim s @ ?b" by (simp only: trim_def)
  have 3: "list_all isWhiteSpace ?a" by (simp add: list_all_iff) (meson set_takeWhileD)
  have 4: "list_all isWhiteSpace ?b" by (simp add: list_all_iff) (meson set_takeWhileD)
  from 1 2 have "s = ?a @ trim s @ ?b" by simp
  with 3 4 show ?thesis by blast
qed

subsection \<open>Character classes\<close>

lemma search_Cls:
  "search ic (Cls cs) (p, xs) \<longleftrightarrow> (\<exists>x\<in>set xs. list_ex (same_char ic x) cs)"
  by (induction xs arbitrary: p) auto

lemma test_Cls: "test ic (Cls cs) s \<longleftrightarrow> (\<exists>x\<in>set s. list_ex (same_char ic x) cs)"
  by (simp add: test_def search_Cls)

subsection \<open>Keywords\<close>

lemma search_split:
  "search ic r (p, xs) \<Longrightarrow>
     \<exists>pre rest. xs = pre @ rest \<and> rmatch ic r (prev_of p pre, rest) \<noteq> []"
proof (induction xs arbitrary: p)
  case Nil
  then show ?case by (simp add: prev_of_def)
next
  case (Cons x xs)
  show ?case
  proof (cases "rmatch ic r (p, x # xs) = []")
    case False
    then have "x # xs = [] @ (x # xs) \<and> rmatch ic r (prev_of p [], x # xs) \<noteq> []"
      by (simp add: prev_of_def)
    then show ?thesis by blast
  next
    case True
    with Cons.prems have "search ic r (Some x, xs)" by simp
    from Cons.IH [OF this] obtain pre rest
      where s: "xs = pre @ rest" and m: "rmatch ic r (prev_of (Some x) pre, rest) \<noteq> []"
      by blast
    have "prev_of (Some x) pre = prev_of p (x # pre)" by (simp add: prev_of_def)
    with s m have "x # xs = (x # pre) @ rest \<and> rmatch ic r (prev_of p (x # pre), rest) \<noteq> []"
      by simp
    then show ?thesis by blast
  qed
qed

lemma rmatch_chars:
  "cfg \<in> set (rmatch ic (chars w) (p, xs)) \<Longrightarrow>
     \<exists>ys. xs = ys @ snd cfg \<and> list_all2 (same_char ic) ys w \<and> fst cfg = prev_of p ys"
proof (induction w arbitrary: p xs rule: chars.induct)
  case 1
  then show ?case by (simp add: prev_of_def)
next
  case (2 c)
  then show ?case by (cases xs) (auto simp: prev_of_def split: if_splits)
next
  case (3 c d ds)
  from "3.prems" obtain x xs' where xs: "xs = x # xs'" by (cases xs) auto
  with "3.prems" have sc: "same_char ic x c"
    and m: "cfg \<in> set (rmatch ic (chars (d # ds)) (Some x, xs'))"
    by (auto split: if_splits)
  from "3.IH" [OF m] obtain ys
    where ys: "xs' = ys @ snd cfg" "list_all2 (same_char ic) ys (d # ds)" "fst cfg = prev_of (Some x) ys"
    by blast
  have "prev_of (Some x) ys = prev_of p (x # ys)" by (simp add: prev_of_def)
  with xs sc ys have "xs = (x # ys) @ snd cfg \<and> list_all2 (same_char ic) (x # ys) (c # d # ds) \<and>
      fst cfg = prev_of p (x # ys)" by simp
  then show ?case by blast
qed

lemma rmatch_alternatives:
  "cfg' \<in> set (rmatch ic (alternatives rs) cfg) \<Longrightarrow> rs \<noteq> [] \<Longrightarrow>
     \<exists>r\<in>set rs. cfg' \<in> set (rmatch ic r cfg)"
  by (induction rs rule: alternatives.induct) auto

lemma rmatch_whole_word:
  assumes "rmatch ic (whole_word ws) cfg \<noteq> []" and "ws \<noteq> []"
  shows "\<exists>w\<in>set ws. \<exists>cfg'. cfg' \<in> set (rmatch ic (chars w) cfg) \<and>
           word_before cfg \<noteq> word_after cfg \<and> word_before cfg' \<noteq> word_after cfg'"
proof -
  from assms(1) have b: "word_before cfg \<noteq> word_after cfg"
    by (auto simp: whole_word_def split: if_splits)
  with assms(1) obtain cfg' where c: "cfg' \<in> set (rmatch ic (alternatives (map chars ws)) cfg)"
    and b': "word_before cfg' \<noteq> word_after cfg'"
    by (auto simp: whole_word_def split: if_splits)
  from rmatch_alternatives [OF c] assms(2) obtain w where "w \<in> set ws"
    "cfg' \<in> set (rmatch ic (chars w) cfg)" by auto
  with b b' show ?thesis by blast
qed

lemma test_whole_wordD:
  assumes "test ic (whole_word ws) s" and "ws \<noteq> []"
  shows "\<exists>w\<in>set ws. \<exists>pre ys post. s = pre @ ys @ post \<and> list_all2 (same_char ic) ys w \<and>
           word_before (prev_of None pre, ys @ post) \<noteq> word_after (prev_of None pre, ys @ post) \<and>
           word_before (prev_of (prev_of None pre) ys, post) \<noteq>
             word_after (prev_of (prev_of None pre) ys, post)"
proof -
  from assms(1) search_split obtain pre rest
    where s: "s = pre @ rest" and m: "rmatch ic (whole_word ws) (prev_of None pre, rest) \<noteq> []"
    unfolding test_def by blast
  from rmatch_whole_word [OF m assms(2)] obtain w cfg'
    where w: "w \<in> set ws" and c: "cfg' \<in> set (rmatch ic (chars w) (prev_of None pre, rest))"
      and b: "word_before (prev_of None pre, rest) \<noteq> word_after (prev_of None pre, rest)"
      and b': "word_before cfg' \<noteq> word_after cfg'"
    by blast
  from rmatch_chars [OF c] obtain ys
    where ys: "rest = ys @ snd cfg'" "list_all2 (same_char ic) ys w"
      "fst cfg' = prev_of (prev_of None pre) ys"
    by blast
  obtain q post where cfg': "cfg' = (q, post)" by (cases cfg')
  with ys s b b' w show ?thesis
    by (intro bexI [of _ w] exI [of _ pre] exI [of _ ys] exI [of _ post]) auto
qed

lemma test_whole_word_chars:
  assumes "test ic (whole_word ws) s" and "ws \<noteq> []"
  shows "\<exists>w\<in>set ws. \<forall>c\<in>set w. \<exists>y\<in>set s. same_char ic y c"
proof -
  from test_whole_wordD [OF assms] obtain w pre ys post
    where w: "w \<in> set ws" and s: "s = pre @ ys @ post" and m: "list_all2 (same_char ic) ys w"
    by blast
  have "\<forall>c\<in>set w. \<exists>y\<in>set ys. same_char ic y c"
    using m by (metis in_set_conv_nth list_all2_conv_all_nth)
  then have "\<forall>c\<in>set w. \<exists>y\<in>set s. same_char ic y c" using s by auto
  with w show ?thesis by blast
qed

subsection \<open>The rules of the detector\<close>

lemmas detect_eval = detectLangFromText_def trim_def isWhiteSpace_def toLowerCase_def toLowerCase_cu_def
  test_def whole_word_def pt_words_def es_words_def it_words_def fr_words_def
  pt_class_def es_class_def it_class_def fr_class_def lit_def same_char_def Canonicalize_def
  upper_single_def isWordChar_def word_before_def word_after_def

lemma pt_class_hit: "x \<in> set t \<Longrightarrow> accented_vowel x \<Longrightarrow> test True (Cls pt_class) t"
  unfolding test_Cls accented_vowel_def
  by (rule bexI [of _ x]) (auto simp: pt_class_def same_char_def Canonicalize_def upper_single_def)

lemma cedilla_hit: "x \<in> set t \<Longrightarrow> x = 0xE7 \<or> x = 0xC7 \<Longrightarrow> test True (Cls pt_class) t"
  unfolding test_Cls
  by (rule bexI [of _ x]) (auto simp: pt_class_def same_char_def Canonicalize_def upper_single_def)

lemma es_class_hit:
  assumes "test True (Cls es_class) t"
  shows "\<exists>x\<in>set t. accented_vowel x \<or> x = 0xFA \<or> x = 0xDA \<or> x = 0xF1 \<or> x = 0xD1 \<or> x = 0xA1 \<or> x = 0xBF"
proof -
  from assms obtain x c where x: "x \<in> set t" and c: "c \<in> set es_class"
    and e: "Canonicalize x = Canonicalize c"
    by (auto simp: test_Cls list_ex_iff same_char_def)
  define y where "y = Canonicalize c"
  from c have v: "y \<in> {0xD1, 0xC1, 0xC9, 0xCD, 0xD3, 0xDA, 0xA1, 0xBF}"
    unfolding y_def by (auto simp: es_class_def Canonicalize_def upper_single_def)
  then have "y < 0x100" by auto
  with e Canonicalize_latin1 [of x y]
  have "x = y \<or> (x = y + 0x20 \<and> ((0x41 \<le> y \<and> y \<le> 0x5A) \<or> (0xC0 \<le> y \<and> y \<le> 0xDE \<and> y \<noteq> 0xD7)))"
    by (simp add: y_def)
  with v have "accented_vowel x \<or> x = 0xFA \<or> x = 0xDA \<or> x = 0xF1 \<or> x = 0xD1 \<or> x = 0xA1 \<or> x = 0xBF"
    by (auto simp: accented_vowel_def)
  with x show ?thesis by blast
qed

lemma toLowerCase_cu_accented:
  assumes "y \<in> set (toLowerCase_cu x)" and "accented_vowel y"
  shows "accented_vowel x"
proof (cases "x < 0x100")
  case True
  with assms show ?thesis
    by (auto simp: toLowerCase_cu_def accented_vowel_def split: if_splits)
next
  case False
  show ?thesis
  proof (cases "range_lookup lower_ranges x")
    case None
    with False assms show ?thesis
      by (auto simp: toLowerCase_cu_def accented_vowel_def split: if_splits)
  next
    case (Some u)
    from lower_lookup_range [OF Some] Some False assms show ?thesis
      by (auto simp: toLowerCase_cu_def accented_vowel_def split: if_splits)
  qed
qed

lemma es_words_all_accented:
  "list_all (list_ex (\<lambda>c. c = 0xE1 \<or> c = 0xE9 \<or> c = 0xED \<or> c = 0xF3)) es_words"
  by (simp add: es_words_def lit_def)

lemma es_words_accented:
  "w \<in> set es_words \<Longrightarrow> \<exists>c\<in>set w. c \<in> {0xE1, 0xE9, 0xED, 0xF3}"
  using es_words_all_accented by (simp add: list_all_iff list_ex_iff)

lemma es_words_hit:
  assumes "test True (whole_word es_words) (toLowerCase t)"
  shows "\<exists>x\<in>set t. accented_vowel x"
proof -
  have "es_words \<noteq> []" by (simp add: es_words_def)
  from test_whole_word_chars [OF assms this] obtain w
    where w: "w \<in> set es_words" and a: "\<forall>c\<in>set w. \<exists>y\<in>set (toLowerCase t). same_char True y c"
    by blast
  from es_words_accented [OF w] obtain c where c: "c \<in> set w" "c \<in> {0xE1, 0xE9, 0xED, 0xF3}"
    by blast
  with a obtain y where y: "y \<in> set (toLowerCase t)" and e: "Canonicalize y = Canonicalize c"
    by (auto simp: same_char_def)
  define u where "u = Canonicalize c"
  from c have v: "u \<in> {0xC1, 0xC9, 0xCD, 0xD3}"
    unfolding u_def by (auto simp: Canonicalize_def upper_single_def)
  then have "u < 0x100" by auto
  with e Canonicalize_latin1 [of y u] have "y = u \<or> y = u + 0x20" by (auto simp: u_def)
  with v have ay: "accented_vowel y" by (auto simp: accented_vowel_def)
  from y obtain x where x: "x \<in> set t" "y \<in> set (toLowerCase_cu x)"
    by (auto simp: toLowerCase_def)
  with toLowerCase_cu_accented ay show ?thesis by blast
qed

lemma lang_names_distinct:
  "lit ''Portuguese'' \<noteq> lit ''Spanish''" "lit ''Italian'' \<noteq> lit ''Spanish''"
  "lit ''French'' \<noteq> lit ''Spanish''" "lit ''English'' \<noteq> lit ''Spanish''"
  by (simp_all add: lit_def)

subsection \<open>Plain texts\<close>

lemma range_lookup_None:
  "list_all (\<lambda>(lo, hi, st, t). c < lo \<or> hi < c) rs \<Longrightarrow> range_lookup rs c = None"
  by (induction rs c rule: range_lookup.induct) auto

lemma whitespace_not_lower_range:
  assumes "isWhiteSpace c" and "0x100 \<le> c"
  shows "range_lookup lower_ranges c = None"
proof -
  from assms consider "c = 0x1680" | "0x2000 \<le> c \<and> c \<le> 0x200A" | "c = 0x2028" | "c = 0x2029"
    | "c = 0x202F" | "c = 0x205F" | "c = 0x3000" | "c = 0xFEFF"
    by (auto simp: isWhiteSpace_def)
  then have "list_all (\<lambda>(lo, hi, st, t). c < lo \<or> hi < c) lower_ranges"
    by cases (simp_all add: lower_ranges_def)
  then show ?thesis by (rule range_lookup_None)
qed

lemma toLowerCase_cu_plain:
  assumes "isAsciiAlnum c \<or> isWhiteSpace c"
  shows "toLowerCase_cu c = [ascii_lower c]"
proof (cases "c < 0x100")
  case True
  with assms show ?thesis
    by (auto simp: toLowerCase_cu_def ascii_lower_def isAsciiAlnum_def isWhiteSpace_def)
next
  case False
  with assms have w: "isWhiteSpace c" by (auto simp: isAsciiAlnum_def)
  with False have "range_lookup lower_ranges c = None" by (simp add: whitespace_not_lower_range)
  moreover from w have "c \<noteq> 0x130" by (auto simp: isWhiteSpace_def)
  ultimately show ?thesis using False by (simp add: toLowerCase_cu_def ascii_lower_def)
qed

lemma toLowerCase_plain: "plain_text s \<Longrightarrow> toLowerCase s = map ascii_lower s"
  by (induction s) (simp_all add: toLowerCase_def plain_text_def toLowerCase_cu_plain)

lemma lowered_ascii_lower: "isAsciiAlnum c \<or> isWhiteSpace c \<Longrightarrow> lowered (ascii_lower c)"
  by (auto simp: lowered_def ascii_lower_def isAsciiAlnum_def isWhiteSpace_def)

lemma plain_not_same_char:
  assumes "isAsciiAlnum x \<or> isWhiteSpace x" and "0xA1 \<le> Canonicalize c" and "Canonicalize c < 0x100"
  shows "\<not> same_char True x c"
proof
  assume "same_char True x c"
  then have e: "Canonicalize x = Canonicalize c" by (simp add: same_char_def)
  from Canonicalize_latin1 [OF e assms(3)] assms(2) have "0xA1 \<le> x" "x < 0x100" by auto
  with assms(1) show False by (auto simp: isAsciiAlnum_def isWhiteSpace_def)
qed

lemma classes_canonical:
  "list_all (\<lambda>c. 0xA1 \<le> Canonicalize c \<and> Canonicalize c < 0x100)
     (pt_class @ es_class @ it_class @ fr_class)"
  by (simp add: pt_class_def es_class_def it_class_def fr_class_def Canonicalize_def upper_single_def)

lemma plain_no_class:
  assumes "plain_text t" and "set cs \<subseteq> set (pt_class @ es_class @ it_class @ fr_class)"
  shows "\<not> test True (Cls cs) t"
proof
  assume "test True (Cls cs) t"
  then obtain x c where x: "x \<in> set t" and c: "c \<in> set cs" and s: "same_char True x c"
    by (auto simp: test_Cls list_ex_iff)
  from x assms(1) have "isAsciiAlnum x \<or> isWhiteSpace x" by (auto simp: plain_text_def list_all_iff)
  moreover from c assms(2) classes_canonical
  have "0xA1 \<le> Canonicalize c \<and> Canonicalize c < 0x100" unfolding list_all_iff by blast
  ultimately show False using s plain_not_same_char by blast
qed

lemma same_char_lowered:
  assumes "lowered y" and "kw_char c" and "same_char True y c"
  shows "y = c"
proof -
  define u where "u = Canonicalize c"
  from assms(3) have e: "Canonicalize y = u" by (simp add: same_char_def u_def)
  from assms(2) have u: "(0x61 \<le> c \<and> c \<le> 0x7A \<and> u = c - 0x20) \<or> (c = 0x20 \<and> u = 0x20) \<or>
      (u = 0xC1 \<or> u = 0xC9 \<or> u = 0xCD \<or> u = 0xD3)"
    unfolding u_def by (auto simp: kw_char_def Canonicalize_def upper_single_def)
  then have "u < 0x100" by auto
  from Canonicalize_latin1 [OF e this]
  have y: "y = u \<or> (y = u + 0x20 \<and> ((0x41 \<le> u \<and> u \<le> 0x5A) \<or> (0xC0 \<le> u \<and> u \<le> 0xDE \<and> u \<noteq> 0xD7)))"
    by simp
  from assms(1) have l: "lowered y" .
  from u y l show ?thesis
    by (auto simp: lowered_def isWhiteSpace_def)
qed

lemma list_all2_same_lowered:
  "list_all2 (same_char True) ys w \<Longrightarrow> list_all lowered ys \<Longrightarrow> list_all kw_char w \<Longrightarrow> ys = w"
  by (induction rule: list_all2_induct) (auto dest: same_char_lowered)

lemma keywords_shape:
  "list_all (\<lambda>w. w \<noteq> [] \<and> list_all kw_char w \<and> isWordChar (hd w) \<and>
      (isWordChar (last w) \<or> last w = 0xE9)) listed_keywords"
  by (simp add: listed_keywords_def pt_words_def es_words_def it_words_def fr_words_def lit_def
      kw_char_def isWordChar_def)

lemma whole_word_inI:
  assumes s: "s = A @ m @ B" and m: "map ascii_lower m = w"
    and A: "A = [] \<or> \<not> isAsciiAlnum (last A)" and B: "B = [] \<or> \<not> isAsciiAlnum (hd B)"
  shows "whole_word_in w s"
proof -
  from m have len: "length w = length m" by auto
  have 1: "map ascii_lower (take (length w) (drop (length A) s)) = w"
    using s m len by simp
  have 2: "\<not> (0 < length A \<and> isAsciiAlnum (s ! (length A - 1)))"
  proof
    assume h: "0 < length A \<and> isAsciiAlnum (s ! (length A - 1))"
    then have "A \<noteq> []" by auto
    then have "s ! (length A - 1) = last A"
      using s by (simp add: nth_append last_conv_nth)
    with h A \<open>A \<noteq> []\<close> show False by simp
  qed
  have 3: "\<not> (length A + length w < length s \<and> isAsciiAlnum (s ! (length A + length w)))"
  proof
    assume h: "length A + length w < length s \<and> isAsciiAlnum (s ! (length A + length w))"
    then have "B \<noteq> []" using s len by auto
    then have "s ! (length A + length w) = hd B"
      using s len by (simp add: nth_append hd_conv_nth)
    with h B \<open>B \<noteq> []\<close> show False by simp
  qed
  have "occurs_at w s (length A)" unfolding occurs_at_def using 1 2 3 by blast
  moreover have "length A \<in> set [0..<Suc (length s)]" using s by simp
  ultimately show ?thesis unfolding whole_word_in_def list_ex_iff by blast
qed

lemma alnum_word: "isAsciiAlnum x \<Longrightarrow> isWordChar (ascii_lower x)"
  by (auto simp: isAsciiAlnum_def isWordChar_def ascii_lower_def)

lemma whitespace_not_alnum: "isWhiteSpace x \<Longrightarrow> \<not> isAsciiAlnum x"
  by (auto simp: isAsciiAlnum_def isWhiteSpace_def)

lemma lowered_not_accent: "lowered y \<Longrightarrow> y \<noteq> 0xE9"
  by (auto simp: lowered_def isWhiteSpace_def)

lemma word_after_append: "w \<noteq> [] \<Longrightarrow> word_after (p, w @ post) = isWordChar (hd w)"
  by (cases w) (simp_all add: word_after_def)

lemma word_after_rest: "word_after (p, post) = (post \<noteq> [] \<and> isWordChar (hd post))"
  by (cases post) (simp_all add: word_after_def)

lemma word_before_start: "word_before (prev_of None pre, r) = (pre \<noteq> [] \<and> isWordChar (last pre))"
  by (simp add: word_before_def prev_of_def)

lemma word_before_end: "w \<noteq> [] \<Longrightarrow> word_before (prev_of p w, r) = isWordChar (last w)"
  by (simp add: word_before_def prev_of_def)

lemma keyword_shape:
  assumes "w \<in> set listed_keywords"
  shows "w \<noteq> []" "list_all kw_char w" "isWordChar (hd w)" "isWordChar (last w) \<or> last w = 0xE9"
  using assms keywords_shape unfolding list_all_iff by blast+

lemma keyword_hit:
  assumes p: "plain_text text" and sub: "set ws \<subseteq> set listed_keywords" and ne: "ws \<noteq> []"
    and t: "test True (whole_word ws) (toLowerCase (trim text))"
  shows "\<exists>w\<in>set listed_keywords. whole_word_in w text"
proof -
  let ?t = "trim text"
  from trim_decompose obtain a b
    where d: "text = a @ ?t @ b" and wa: "list_all isWhiteSpace a" and wb: "list_all isWhiteSpace b"
    by blast
  have pt: "plain_text ?t"
    using p set_trim_subset [of "text"] by (auto simp: plain_text_def list_all_iff)
  then have low: "toLowerCase ?t = map ascii_lower ?t" by (rule toLowerCase_plain)
  from test_whole_wordD [OF t ne] obtain w pre ys post
    where w: "w \<in> set ws" and s: "toLowerCase ?t = pre @ ys @ post"
      and m: "list_all2 (same_char True) ys w"
      and b1: "word_before (prev_of None pre, ys @ post) \<noteq> word_after (prev_of None pre, ys @ post)"
      and b2: "word_before (prev_of (prev_of None pre) ys, post) \<noteq>
               word_after (prev_of (prev_of None pre) ys, post)"
    by blast
  from w sub have "w \<in> set listed_keywords" by blast
  note shape = keyword_shape [OF this]
  have "list_all lowered (map ascii_lower ?t)"
    using pt by (auto simp: plain_text_def list_all_iff lowered_ascii_lower)
  with s low have ly: "list_all lowered ys" by (auto simp: list_all_iff)
  from m ly shape(2) have yw: "ys = w" by (rule list_all2_same_lowered)
  from ly yw shape(1) have "lowered (last w)" by (simp add: list_all_iff)
  with shape(4) lowered_not_accent have lw: "isWordChar (last w)" by blast
  from b1 yw shape(1,3) have pre_ok: "pre = [] \<or> \<not> isWordChar (last pre)"
    by (simp add: word_after_append word_before_start)
  from b2 yw shape(1) lw have post_ok: "post = [] \<or> \<not> isWordChar (hd post)"
    by (simp add: word_before_end word_after_rest)
  from low s yw have "map ascii_lower ?t = pre @ w @ post" by simp
  from this [unfolded map_eq_append_conv] obtain pre' r
    where 1: "?t = pre' @ r" "pre = map ascii_lower pre'" "w @ post = map ascii_lower r"
    by blast
  from 1(3) [unfolded append_eq_map_conv] obtain m' post'
    where 2: "r = m' @ post'" "w = map ascii_lower m'" "post = map ascii_lower post'"
    by blast
  have A: "a @ pre' = [] \<or> \<not> isAsciiAlnum (last (a @ pre'))"
  proof (cases "pre' = []")
    case True
    with wa show ?thesis
      by (cases "a = []") (auto simp: list_all_iff whitespace_not_alnum)
  next
    case False
    with 1(2) have "pre \<noteq> []" "last pre = ascii_lower (last pre')" by (simp_all add: last_map)
    with pre_ok alnum_word have "\<not> isAsciiAlnum (last pre')" by auto
    with False show ?thesis by simp
  qed
  have B: "post' @ b = [] \<or> \<not> isAsciiAlnum (hd (post' @ b))"
  proof (cases "post' = []")
    case True
    with wb show ?thesis
      by (cases b) (auto simp: whitespace_not_alnum)
  next
    case False
    with 2(3) have "post \<noteq> []" "hd post = ascii_lower (hd post')" by (simp_all add: hd_map)
    with post_ok alnum_word have "\<not> isAsciiAlnum (hd post')" by auto
    with False show ?thesis by simp
  qed
  from d 1(1) 2(1) have "text = (a @ pre') @ m' @ (post' @ b)" by simp
  from whole_word_inI [OF this 2(2) [symmetric] A B] have "whole_word_in w text" .
  with w sub show ?thesis by blast
qed

section \<open>Properties of the handler\<close>

lemma trim_Nil: "trim [] = []"
  by (simp add: trim_def)

lemma ask_with_text:
  assumes "opt_member req_body (lit ''message'') = JStr s" and "trim s \<noteq> []"
  shows "ask rt e create req_body =
           (case create (request_for e s) of
              Inl err \<Rightarrow> catch_block rt err [request_for e s]
            | Inr chatResponse \<Rightarrow> relay rt (request_for e s) chatResponse)"
proof -
  from assms(2) have "s \<noteq> []" by (auto simp: trim_def)
  with assms show ?thesis by (simp add: ask_def request_for_def Let_def split: sum.splits)
qed

lemma relay_no_content:
  assumes "\<not> nullish chatResponse"
    and "nullish (first_content chatResponse) \<or>
         (\<exists>c. first_content chatResponse = JStr c \<and> trim c = [])"
  shows "relay rt request chatResponse =
           \<lparr>status = 502, body = JObj [(lit ''error'', JStr (lit ''No answer from model''))],
            logged = [], calls = [request]\<rparr>"
  using assms
  by (cases "first_content chatResponse") (auto simp: relay_def nullish_def Let_def)

lemma calls_catch_block: "calls (catch_block rt err sent) = sent"
  by (simp add: catch_block_def Let_def)

lemma calls_relay: "calls (relay rt request chatResponse) = [request]"
  by (cases "first_content chatResponse") (auto simp: relay_def calls_catch_block Let_def)

lemmas handler_eval = message_body_def opt_member_def nullish_def lit_def trim_def
  isWhiteSpace_def returning_def throwing_def first_content_def

section \<open>The detector on the sample sentences\<close>

text \<open>
  Claim C1. The specification expects Portuguese, Spanish, Italian and French for the four
  accented sample sentences. The detector returns Portuguese for the first and French for
  the last, and Portuguese also for the Spanish and for the Italian sentence: each holds
  an \<open>e\<close> with an acute accent (U+00E9), which is in the character class of the
  Portuguese rule, and that rule is tried first.
\<close>

theorem detect_sample_sentences:
  "detectLangFromText sample_pt = lit ''Portuguese'' \<and>
   detectLangFromText sample_es = lit ''Portuguese'' \<and>
   detectLangFromText sample_it = lit ''Portuguese'' \<and>
   detectLangFromText sample_fr = lit ''French''"
  by (simp add: sample_pt_def sample_es_def sample_it_def sample_fr_def detect_eval)

text \<open>
  Claim C2, as the code has it. The sentence \<open>Why do we use articles?\<close> holds the whole
  word \<open>articles\<close>, a keyword of the French rule, and nothing that an earlier rule looks
  for: the detector returns French.
\<close>

theorem detect_english_sample:
  "detectLangFromText sample_en = lit ''French''"
  by (simp add: sample_en_def detect_eval)

text \<open>The label the specification gives for that sentence is not the one returned.\<close>

theorem detect_english_sample_counterexample:
  "detectLangFromText sample_en \<noteq> lit ''English''"
  by (simp add: sample_en_def detect_eval)

section \<open>The detector on every text\<close>

text \<open>
  Claim C3. A text that contains a \<open>c\<close> with a cedilla, small (U+00E7) or capital
  (U+00C7), is Portuguese for the detector whatever else it contains, keywords of the
  French rule included.
\<close>

theorem detect_cedilla:
  assumes "0xE7 \<in> set text \<or> 0xC7 \<in> set text"
  shows "detectLangFromText text = lit ''Portuguese''"
proof -
  from assms obtain x where x: "x \<in> set text" "x = 0xE7 \<or> x = 0xC7" by blast
  then have "\<not> isWhiteSpace x" by (auto simp: isWhiteSpace_def)
  with x have "x \<in> set (trim text)" by (simp add: in_trim)
  then have "test True (Cls pt_class) (trim text)" using x(2) by (rule cedilla_hit)
  then show ?thesis by (simp add: detectLangFromText_def)
qed

theorem detect_cedilla_witness:
  "detectLangFromText (lit ''pourquoi fran'' @ [0xE7] @ lit ''ais'') = lit ''Portuguese'' \<and>
   test True (whole_word fr_words) (toLowerCase (trim (lit ''pourquoi fran'' @ [0xE7] @ lit ''ais'')))"
  using detect_cedilla [of "lit ''pourquoi fran'' @ [0xE7] @ lit ''ais''"]
  by (simp add: detect_eval)

text \<open>
  Claim C9, as the code has it. The detector returns Spanish only for a text that contains
  an \<open>n\<close> with a tilde, small (U+00F1) or capital (U+00D1, which the \<open>i\<close> flag of the
  class admits), or an inverted exclamation or question mark (U+00A1, U+00BF). The
  keywords of the Spanish rule never decide: whenever one of them matches, the text holds
  an accented vowel of the Portuguese class and the result is Portuguese.
\<close>

theorem detect_spanish_marks:
  "(detectLangFromText text = lit ''Spanish'' \<longrightarrow>
      0xF1 \<in> set text \<or> 0xD1 \<in> set text \<or> 0xA1 \<in> set text \<or> 0xBF \<in> set text) \<and>
   (test True (whole_word es_words) (toLowerCase (trim text)) \<longrightarrow>
      detectLangFromText text = lit ''Portuguese'')"
proof (intro conjI impI)
  assume kw: "test True (whole_word es_words) (toLowerCase (trim text))"
  from es_words_hit [OF this] obtain x where "x \<in> set (trim text)" "accented_vowel x" by blast
  then have "test True (Cls pt_class) (trim text)" by (rule pt_class_hit)
  then show "detectLangFromText text = lit ''Portuguese''" by (simp add: detectLangFromText_def)
next
  assume sp: "detectLangFromText text = lit ''Spanish''"
  let ?t = "trim text"
  from sp have no_pt: "\<not> test True (Cls pt_class) ?t"
    by (auto simp: detectLangFromText_def Let_def lang_names_distinct split: if_splits)
  from sp have "test True (Cls es_class) ?t \<or> test True (whole_word es_words) (toLowerCase ?t)"
    using lang_names_distinct
    by (simp add: detectLangFromText_def Let_def split: if_splits)
  moreover have "\<not> test True (whole_word es_words) (toLowerCase ?t)"
    using es_words_hit pt_class_hit no_pt by blast
  ultimately have "test True (Cls es_class) ?t" by blast
  from es_class_hit [OF this] obtain x where x: "x \<in> set ?t"
    and c: "accented_vowel x \<or> x = 0xFA \<or> x = 0xDA \<or> x = 0xF1 \<or> x = 0xD1 \<or> x = 0xA1 \<or> x = 0xBF"
    by blast
  have "\<not> accented_vowel x" using pt_class_hit x no_pt by blast
  moreover have "x \<noteq> 0xFA \<and> x \<noteq> 0xDA"
    using no_pt x by (auto simp: test_Cls pt_class_def same_char_def Canonicalize_def upper_single_def)
  ultimately have "x = 0xF1 \<or> x = 0xD1 \<or> x = 0xA1 \<or> x = 0xBF" using c by blast
  moreover from x have "x \<in> set text" using set_trim_subset by blast
  ultimately show "0xF1 \<in> set text \<or> 0xD1 \<in> set text \<or> 0xA1 \<in> set text \<or> 0xBF \<in> set text"
    by blast
qed

theorem detect_spanish_marks_witness:
  "detectLangFromText ([0xBF] @ lit ''Que tal?'') = lit ''Spanish'' \<and>
   0xBF \<in> set ([0xBF] @ lit ''Que tal?'') \<and>
   test True (whole_word es_words) (toLowerCase (trim (lit ''c'' @ [0xF3] @ lit ''mo''))) \<and>
   detectLangFromText (lit ''c'' @ [0xF3] @ lit ''mo'') = lit ''Portuguese''"
  using detect_spanish_marks [of "[0xBF] @ lit ''Que tal?''"]
    detect_spanish_marks [of "lit ''c'' @ [0xF3] @ lit ''mo''"]
  by (simp add: detect_eval)

text \<open>
  A capital \<open>N\<close> with a tilde alone is Spanish for the detector, and the text contains
  none of the three characters U+00F1, U+00A1, U+00BF.
\<close>

theorem detect_spanish_marks_counterexample:
  "detectLangFromText [0xD1] = lit ''Spanish'' \<and>
   0xF1 \<notin> set [0xD1 :: code_unit] \<and> 0xA1 \<notin> set [0xD1 :: code_unit] \<and> 0xBF \<notin> set [0xD1 :: code_unit]"
  by (simp add: detect_eval)

text \<open>
  Claim C8. A text made of ASCII letters, ASCII digits and white space only, in which no
  keyword of the four rules occurs as a whole word (in any letter case, as the detector
  lowers the text before it looks for keywords), is English for the detector.
\<close>

theorem detect_plain_english:
  assumes "plain_text text" and "\<not> list_ex (\<lambda>w. whole_word_in w text) listed_keywords"
  shows "detectLangFromText text = lit ''English''"
proof -
  let ?t = "trim text"
  have pt: "plain_text ?t"
    using assms(1) set_trim_subset [of "text"] by (auto simp: plain_text_def list_all_iff)
  have c: "\<not> test True (Cls pt_class) ?t" "\<not> test True (Cls es_class) ?t"
    "\<not> test True (Cls it_class) ?t" "\<not> test True (Cls fr_class) ?t"
    using plain_no_class [OF pt, of pt_class] plain_no_class [OF pt, of es_class]
      plain_no_class [OF pt, of it_class] plain_no_class [OF pt, of fr_class]
    by auto
  have none: "\<not> (\<exists>w\<in>set listed_keywords. whole_word_in w text)"
    using assms(2) by (simp add: list_ex_iff)
  have k: "\<not> test True (whole_word pt_words) (toLowerCase ?t)"
    "\<not> test True (whole_word es_words) (toLowerCase ?t)"
    "\<not> test True (whole_word it_words) (toLowerCase ?t)"
    "\<not> test True (whole_word fr_words) (toLowerCase ?t)"
    using keyword_hit [OF assms(1), of pt_words] keyword_hit [OF assms(1), of es_words]
      keyword_hit [OF assms(1), of it_words] keyword_hit [OF assms(1), of fr_words] none
    by (auto simp: listed_keywords_def pt_words_def es_words_def it_words_def fr_words_def)
  from c k show ?thesis by (simp add: detectLangFromText_def)
qed

theorem detect_plain_english_witness:
  "plain_text plain_sample \<and>
   \<not> list_ex (\<lambda>w. whole_word_in w plain_sample) listed_keywords \<and>
   detectLangFromText plain_sample = lit ''English''"
proof -
  have 1: "plain_text plain_sample"
    by (simp add: plain_sample_def plain_text_def lit_def isAsciiAlnum_def isWhiteSpace_def)
  have 2: "\<not> list_ex (\<lambda>w. whole_word_in w plain_sample) listed_keywords"
    by (simp add: plain_sample_def listed_keywords_def pt_words_def es_words_def it_words_def
        fr_words_def lit_def whole_word_in_def occurs_at_def ascii_lower_def isAsciiAlnum_def)
  from detect_plain_english [OF 1 2] 1 2 show ?thesis by simp
qed

section \<open>The handler\<close>

text \<open>
  Claim C4. A request whose \<open>message\<close> is missing, or is a string that trims to the
  empty string (\<open>ask("")\<close> and \<open>ask("   ")\<close> among them), is answered with status 400 and
  the body \<open>{ "error": "Empty message" }\<close>; nothing is logged and the service is not
  called.
\<close>

theorem ask_empty_message:
  assumes "opt_member req_body (lit ''message'') = JUndefined \<or>
           (\<exists>s. opt_member req_body (lit ''message'') = JStr s \<and> trim s = [])"
  shows "ask rt e create req_body =
           \<lparr>status = 400, body = JObj [(lit ''error'', JStr (lit ''Empty message''))],
            logged = [], calls = []\<rparr>"
  using assms by (auto simp: ask_def Let_def trim_Nil)

theorem ask_empty_message_witness:
  "ask sample_runtime sample_env (returning JNull) (message_body []) =
     \<lparr>status = 400, body = JObj [(lit ''error'', JStr (lit ''Empty message''))],
      logged = [], calls = []\<rparr> \<and>
   ask sample_runtime sample_env (returning JNull) (message_body (lit ''   '')) =
     \<lparr>status = 400, body = JObj [(lit ''error'', JStr (lit ''Empty message''))],
      logged = [], calls = []\<rparr> \<and>
   ask sample_runtime sample_env (returning JNull) (JObj []) =
     \<lparr>status = 400, body = JObj [(lit ''error'', JStr (lit ''Empty message''))],
      logged = [], calls = []\<rparr>"
  using ask_empty_message [of "message_body []" sample_runtime sample_env "returning JNull"]
    ask_empty_message [of "message_body (lit ''   '')" sample_runtime sample_env "returning JNull"]
    ask_empty_message [of "JObj []" sample_runtime sample_env "returning JNull"]
  by (simp add: handler_eval)

text \<open>
  Claim C5. For the message \<open>Hello\<close> the service is called exactly once, whatever it
  then does. The request has three messages; the content of the first is the language
  hint for English, the detector's result for \<open>Hello\<close>, and contains \<open>English\<close>; the
  content of the last is the trimmed message.
\<close>

theorem ask_hello:
  "\<exists>request. calls (ask rt e create (message_body (lit ''Hello''))) = [request] \<and>
     length (messages request) = 3 \<and>
     detectLangFromText (lit ''Hello'') = lit ''English'' \<and>
     content (messages request ! 0) = LANG_HINT (lit ''English'') \<and>
     has_substring (content (messages request ! 0)) (lit ''English'') \<and>
     content (messages request ! 2) = trim (lit ''Hello'')"
proof -
  have m: "opt_member (message_body (lit ''Hello'')) (lit ''message'') = JStr (lit ''Hello'')"
    by (simp add: handler_eval)
  have t: "trim (lit ''Hello'') = lit ''Hello''" by (simp add: handler_eval)
  then have n: "trim (lit ''Hello'') \<noteq> []" by (simp add: lit_def)
  have d: "detectLangFromText (lit ''Hello'') = lit ''English''" by (simp add: detect_eval)
  let ?r = "request_for e (lit ''Hello'')"
  have c: "calls (ask rt e create (message_body (lit ''Hello''))) = [?r]"
    unfolding ask_with_text [OF m n]
    by (cases "create ?r") (simp_all add: calls_catch_block calls_relay)
  have h: "has_substring (LANG_HINT (lit ''English'')) (lit ''English'')"
    by (simp add: LANG_HINT_def lit_def)
  have "length (messages ?r) = 3 \<and> content (messages ?r ! 0) = LANG_HINT (lit ''English'') \<and>
        content (messages ?r ! 2) = trim (lit ''Hello'')"
    by (simp add: request_for_def completion_request_def t d)
  with c d h show ?thesis by auto
qed

theorem ask_hello_witness:
  "\<exists>request.
     calls (ask sample_runtime sample_env (throwing network_error) (message_body (lit ''Hello''))) =
       [request] \<and>
     length (messages request) = 3 \<and>
     detectLangFromText (lit ''Hello'') = lit ''English'' \<and>
     content (messages request ! 0) = LANG_HINT (lit ''English'') \<and>
     has_substring (content (messages request ! 0)) (lit ''English'') \<and>
     content (messages request ! 2) = trim (lit ''Hello'')"
  by (rule ask_hello)

text \<open>
  Claim C6. When the call returns a response and the content of its first choice
  (\<open>chatResponse.choices?.[0]?.message?.content\<close>) is missing, that is \<open>undefined\<close> or
  \<open>null\<close>, or is a string that trims to the empty string, the answer is status 502 with
  the body \<open>{ "error": "No answer from model" }\<close>, not a success.
\<close>

theorem ask_no_content:
  assumes "opt_member req_body (lit ''message'') = JStr s" and "trim s \<noteq> []"
    and "create (request_for e s) = Inr chatResponse"
    and "\<not> nullish chatResponse"
    and "nullish (first_content chatResponse) \<or>
         (\<exists>c. first_content chatResponse = JStr c \<and> trim c = [])"
  shows "ask rt e create req_body =
           \<lparr>status = 502, body = JObj [(lit ''error'', JStr (lit ''No answer from model''))],
            logged = [], calls = [request_for e s]\<rparr>"
  using assms by (simp add: ask_with_text relay_no_content)

theorem ask_no_content_witness:
  "ask sample_runtime sample_env (returning no_content_response) (message_body (lit ''Hello'')) =
     \<lparr>status = 502, body = JObj [(lit ''error'', JStr (lit ''No answer from model''))],
      logged = [], calls = [request_for sample_env (lit ''Hello'')]\<rparr> \<and>
   ask sample_runtime sample_env (returning blank_content_response) (message_body (lit ''Hello'')) =
     \<lparr>status = 502, body = JObj [(lit ''error'', JStr (lit ''No answer from model''))],
      logged = [], calls = [request_for sample_env (lit ''Hello'')]\<rparr>"
  using ask_no_content [of "message_body (lit ''Hello'')" "lit ''Hello''"
      "returning no_content_response" sample_env no_content_response sample_runtime]
    ask_no_content [of "message_body (lit ''Hello'')" "lit ''Hello''"
      "returning blank_content_response" sample_env blank_content_response sample_runtime]
  by (simp add: handler_eval no_content_response_def blank_content_response_def)

text \<open>
  Claim C7. When the call throws, the answer has status 500. The detail is the payload
  \<open>err.response.data\<close> if it is there (truthy, as \<open>||\<close> tests it), else the message of
  the exception, else the exception as a string. The detail is logged, and the error
  string of the body is the detail itself when it is a string and its JSON text
  otherwise.
\<close>

theorem ask_upstream_failure:
  assumes "opt_member req_body (lit ''message'') = JStr s" and "trim s \<noteq> []"
    and "create (request_for e s) = Inl err"
    and "payload = opt_member (thrown_response err) (lit ''data'')"
    and "detail = (if truthy payload then payload
                   else if truthy (thrown_message err) then thrown_message err
                   else JStr (thrown_string err))"
  shows "ask rt e create req_body =
           \<lparr>status = 500,
            body = JObj [(lit ''error'',
                     JStr (case detail of JStr d \<Rightarrow> d | _ \<Rightarrow> stringify rt detail))],
            logged = [[JStr (lit ''LLM error:''), detail]],
            calls = [request_for e s]\<rparr>"
proof -
  have "error_detail err = detail"
    using assms(4,5) by (simp add: error_detail_def Let_def)
  then have "catch_block rt err [request_for e s] =
      \<lparr>status = 500,
       body = JObj [(lit ''error'',
                JStr (case detail of JStr d \<Rightarrow> d | _ \<Rightarrow> stringify rt detail))],
       logged = [[JStr (lit ''LLM error:''), detail]],
       calls = [request_for e s]\<rparr>"
    by (simp add: catch_block_def Let_def)
  with assms(1-3) show ?thesis by (simp add: ask_with_text)
qed

theorem ask_upstream_failure_witness:
  "ask sample_runtime sample_env (throwing quota_error) (message_body (lit ''Hello'')) =
     \<lparr>status = 500, body = JObj [(lit ''error'', JStr (lit ''quota exceeded''))],
      logged = [[JStr (lit ''LLM error:''), JStr (lit ''quota exceeded'')]],
      calls = [request_for sample_env (lit ''Hello'')]\<rparr> \<and>
   ask sample_runtime sample_env (throwing network_error) (message_body (lit ''Hello'')) =
     \<lparr>status = 500, body = JObj [(lit ''error'', JStr (lit ''Connection error.''))],
      logged = [[JStr (lit ''LLM error:''), JStr (lit ''Connection error.'')]],
      calls = [request_for sample_env (lit ''Hello'')]\<rparr> \<and>
   ask sample_runtime sample_env (throwing bare_error) (message_body (lit ''Hello'')) =
     \<lparr>status = 500, body = JObj [(lit ''error'', JStr (lit ''timeout''))],
      logged = [[JStr (lit ''LLM error:''), JStr (lit ''timeout'')]],
      calls = [request_for sample_env (lit ''Hello'')]\<rparr>"
  using ask_upstream_failure [of "message_body (lit ''Hello'')" "lit ''Hello''"
      "throwing quota_error" sample_env quota_error
      "JStr (lit ''quota exceeded'')" "JStr (lit ''quota exceeded'')" sample_runtime]
    ask_upstream_failure [of "message_body (lit ''Hello'')" "lit ''Hello''"
      "throwing network_error" sample_env network_error
      JUndefined "JStr (lit ''Connection error.'')" sample_runtime]
    ask_upstream_failure [of "message_body (lit ''Hello'')" "lit ''Hello''"
      "throwing bare_error" sample_env bare_error
      JUndefined "JStr (lit ''timeout'')" sample_runtime]
  by (simp add: handler_eval quota_error_def network_error_def bare_error_def)

text \<open>
  Claim C10. When the call returns an object whose \<open>choices\<close> is missing (or \<open>null\<close>), or
  is the empty array, or is an array whose first choice has no \<open>message\<close>, the answer is
  the same status 502 with the body \<open>{ "error": "No answer from model" }\<close>; nothing is
  thrown, so nothing is logged and the status is not 500.
\<close>

theorem ask_no_choices:
  assumes "opt_member req_body (lit ''message'') = JStr s" and "trim s \<noteq> []"
    and "create (request_for e s) = Inr (JObj props)"
    and "choices = member_of (JObj props) (lit ''choices'')"
    and "nullish choices \<or> choices = JArr [] \<or>
         (\<exists>choice rest. choices = JArr (choice # rest) \<and>
            nullish (opt_member choice (lit ''message'')))"
  shows "ask rt e create req_body =
           \<lparr>status = 502, body = JObj [(lit ''error'', JStr (lit ''No answer from model''))],
            logged = [], calls = [request_for e s]\<rparr>"
proof -
  have "first_content (JObj props) = JUndefined"
    using assms(4,5) by (auto simp: first_content_def opt_member_def nullish_def)
  then have "relay rt (request_for e s) (JObj props) =
      \<lparr>status = 502, body = JObj [(lit ''error'', JStr (lit ''No answer from model''))],
       logged = [], calls = [request_for e s]\<rparr>"
    by (simp add: relay_no_content nullish_def)
  with assms(1-3) show ?thesis by (simp add: ask_with_text)
qed

theorem ask_no_choices_witness:
  "ask sample_runtime sample_env (returning (JObj [])) (message_body (lit ''Hello'')) =
     \<lparr>status = 502, body = JObj [(lit ''error'', JStr (lit ''No answer from model''))],
      logged = [], calls = [request_for sample_env (lit ''Hello'')]\<rparr> \<and>
   ask sample_runtime sample_env (returning (JObj [(lit ''choices'', JArr [])]))
       (message_body (lit ''Hello'')) =
     \<lparr>status = 502, body = JObj [(lit ''error'', JStr (lit ''No answer from model''))],
      logged = [], calls = [request_for sample_env (lit ''Hello'')]\<rparr> \<and>
   ask sample_runtime sample_env (returning no_message_response) (message_body (lit ''Hello'')) =
     \<lparr>status = 502, body = JObj [(lit ''error'', JStr (lit ''No answer from model''))],
      logged = [], calls = [request_for sample_env (lit ''Hello'')]\<rparr>"
  using ask_no_choices [of "message_body (lit ''Hello'')" "lit ''Hello''" "returning (JObj [])"
      sample_env "[]" JUndefined sample_runtime]
    ask_no_choices [of "message_body (lit ''Hello'')" "lit ''Hello''"
      "returning (JObj [(lit ''choices'', JArr [])])"
      sample_env "[(lit ''choices'', JArr [])]" "JArr []" sample_runtime]
    ask_no_choices [of "message_body (lit ''Hello'')" "lit ''Hello''"
      "returning no_message_response"
      sample_env "[(lit ''choices'', JArr [JObj [(lit ''index'', JNum (Num 0 0))]])]"
      "JArr [JObj [(lit ''index'', JNum (Num 0 0))]]" sample_runtime]
  by (simp add: handler_eval no_message_response_def)

end
